theory Spec2Isabelle
  imports Complex_Main "HOL-Library.AList"
begin

section \<open>Data model (src/services/types.ts, src/store/canvasStore.ts)\<close>

text \<open>
  The TypeScript \<^verbatim>\<open>number\<close> fields of a node of the interface are modelled as
  \<^typ>\<open>real\<close>: arithmetic is exact and every number is finite. NaN and the infinities,
  which a node object can hold at run time and which JSON serialisation turns into null,
  are values of the section on JavaScript values below. Counters that the store only ever fills from array
  lengths (\<^verbatim>\<open>zIndex\<close>, \<^verbatim>\<open>historyIndex\<close>) and \<^verbatim>\<open>Date.now()\<close> are integers.
  An optional field \<^verbatim>\<open>f?: T\<close> is a \<^typ>\<open>'a option\<close>, \<^verbatim>\<open>undefined\<close> being \<open>None\<close>.
  Field names carry the prefix of their record (\<open>n_\<close> for \<^verbatim>\<open>CanvasNode\<close>, \<open>u_\<close>
  for \<^verbatim>\<open>Partial<CanvasNode>\<close>, \<open>h_\<close> for \<^verbatim>\<open>HistoryState\<close>), since \<^verbatim>\<open>id\<close>,
  \<^verbatim>\<open>x\<close> and \<^verbatim>\<open>y\<close> would otherwise capture variable names and the
  \<^verbatim>\<open>nodes\<close> of a history entry would hide the store's.
\<close>

datatype NodeType = T_image | T_video | T_group | T_text

datatype TextAlign = TA_left | TA_center | TA_right | TA_justify

datatype FontWeight = FW_string string | FW_number real

record CanvasNode =
  n_id :: string
  n_type :: NodeType
  n_assetId :: "string option"
  n_url :: "string option"
  n_x :: real
  n_y :: real
  n_width :: real
  n_height :: real
  n_rotation :: real
  n_opacity :: real
  n_locked :: bool
  n_zIndex :: int
  n_blendMode :: "string option"
  n_shadow :: "bool option"
  n_radius :: "real option"
  n_text :: "string option"
  n_fontFamily :: "string option"
  n_fontSize :: "real option"
  n_fontWeight :: "FontWeight option"
  n_fill :: "string option"
  n_textAlign :: "TextAlign option"

text \<open>
  \<^verbatim>\<open>Partial<CanvasNode>\<close>: every key may be absent (\<open>None\<close>). For a key that is
  optional in \<^verbatim>\<open>CanvasNode\<close> a present key may carry \<^verbatim>\<open>undefined\<close>, hence the
  nested option.
\<close>

record NodeUpdates =
  u_id :: "string option"
  u_type :: "NodeType option"
  u_assetId :: "string option option"
  u_url :: "string option option"
  u_x :: "real option"
  u_y :: "real option"
  u_width :: "real option"
  u_height :: "real option"
  u_rotation :: "real option"
  u_opacity :: "real option"
  u_locked :: "bool option"
  u_zIndex :: "int option"
  u_blendMode :: "string option option"
  u_shadow :: "bool option option"
  u_radius :: "real option option"
  u_text :: "string option option"
  u_fontFamily :: "string option option"
  u_fontSize :: "real option option"
  u_fontWeight :: "FontWeight option option"
  u_fill :: "string option option"
  u_textAlign :: "TextAlign option option"

record HistoryState =
  h_nodes :: "CanvasNode list"
  h_timestamp :: int

datatype CanvasMode = M_select | M_chat | M_dragdrop

datatype Alignment = A_row | A_column | A_grid

text \<open>
  The part of \<^verbatim>\<open>CanvasStore\<close> that the node, selection and history actions read or
  write. The viewport, the UI flags, the assets and the loading state are touched by
  none of them and are left out.
\<close>

record CanvasStore =
  nodes :: "CanvasNode list"
  selectedNodeIds :: "string list"
  canvasMode :: CanvasMode
  history :: "HistoryState list"
  historyIndex :: int

datatype error = TypeError

definition initialStore :: CanvasStore where
  "initialStore =
     \<lparr>nodes = [], selectedNodeIds = [], canvasMode = M_select, history = [], historyIndex = - 1\<rparr>"

section \<open>JavaScript array primitives\<close>

text \<open>\<^verbatim>\<open>xs.slice(0, e)\<close>: a negative end counts from the back, and the end is clamped.\<close>

definition js_slice0 :: "'a list \<Rightarrow> int \<Rightarrow> 'a list" where
  "js_slice0 xs e =
     (let len = int (length xs);
          k = (if e < 0 then max (len + e) 0 else min e len)
      in take (nat k) xs)"

text \<open>\<^verbatim>\<open>xs[i]\<close>: \<^verbatim>\<open>undefined\<close> (here \<open>None\<close>) outside the array.\<close>

definition js_index :: "'a list \<Rightarrow> int \<Rightarrow> 'a option" where
  "js_index xs i = (if 0 \<le> i \<and> i < int (length xs) then Some (xs ! nat i) else None)"

text \<open>\<^verbatim>\<open>xs.findIndex(p)\<close>: the first position whose element satisfies \<open>p\<close>; the
  result \<^verbatim>\<open>-1\<close> is \<open>None\<close>.\<close>

fun findIndex :: "('a \<Rightarrow> bool) \<Rightarrow> 'a list \<Rightarrow> nat option" where
  "findIndex p [] = None"
| "findIndex p (a # as) =
     (if p a then Some 0 else (case findIndex p as of None \<Rightarrow> None | Some i \<Rightarrow> Some (Suc i)))"

section \<open>JavaScript values and the JSON round trip\<close>

text \<open>
  The values a node object can hold at run time, whatever the TypeScript interface says:
  a \<^verbatim>\<open>number\<close> may be NaN or infinite, a key may hold \<^verbatim>\<open>undefined\<close>. An object
  is the list of its own properties in insertion order.
\<close>

datatype jsnumber = Fin real | NaN | PosInfinity | NegInfinity

datatype jsvalue =
    JUndefined
  | JNull
  | JBool bool
  | JNumber jsnumber
  | JString string
  | JArray "jsvalue list"
  | JObject "(string \<times> jsvalue) list"

type_synonym jsobject = "(string \<times> jsvalue) list"

text \<open>
  \<^verbatim>\<open>JSON.parse(JSON.stringify(v))\<close>, by the rules of \<^verbatim>\<open>JSON.stringify\<close>: a number
  that is not finite becomes \<^verbatim>\<open>null\<close>; a property whose value is \<^verbatim>\<open>undefined\<close>
  is left out; an array element that is \<^verbatim>\<open>undefined\<close> becomes \<^verbatim>\<open>null\<close>.
  \<open>json_value\<close> is \<open>None\<close> where \<^verbatim>\<open>stringify\<close> produces nothing. (The reals
  have no negative zero, which the round trip would turn into 0.)
\<close>

fun json_value :: "jsvalue \<Rightarrow> jsvalue option"
  and json_elems :: "jsvalue list \<Rightarrow> jsvalue list"
  and json_props :: "jsobject \<Rightarrow> jsobject" where
  "json_value JUndefined = None"
| "json_value JNull = Some JNull"
| "json_value (JBool b) = Some (JBool b)"
| "json_value (JNumber n) = Some (case n of Fin r \<Rightarrow> JNumber (Fin r) | _ \<Rightarrow> JNull)"
| "json_value (JString s) = Some (JString s)"
| "json_value (JArray vs) = Some (JArray (json_elems vs))"
| "json_value (JObject kvs) = Some (JObject (json_props kvs))"
| "json_elems [] = []"
| "json_elems (v # vs) = (case json_value v of None \<Rightarrow> JNull | Some w \<Rightarrow> w) # json_elems vs"
| "json_props [] = []"
| "json_props ((k, v) # kvs) =
     (case json_value v of None \<Rightarrow> json_props kvs | Some w \<Rightarrow> (k, w) # json_props kvs)"

text \<open>
  A node of the interface \<^verbatim>\<open>CanvasNode\<close> as the object it is at run time, keys in
  the order of the interface, an optional field that is \<open>None\<close> being an absent key;
  and the reading of an object as a node of the interface. A property that does not
  have the interface's type reads as absent (as a default where the field is required).
\<close>

definition typeName :: "NodeType \<Rightarrow> string" where
  "typeName t = (case t of T_image \<Rightarrow> ''image'' | T_video \<Rightarrow> ''video''
                 | T_group \<Rightarrow> ''group'' | T_text \<Rightarrow> ''text'')"

definition alignName :: "TextAlign \<Rightarrow> string" where
  "alignName a = (case a of TA_left \<Rightarrow> ''left'' | TA_center \<Rightarrow> ''center''
                  | TA_right \<Rightarrow> ''right'' | TA_justify \<Rightarrow> ''justify'')"

definition weightValue :: "FontWeight \<Rightarrow> jsvalue" where
  "weightValue w = (case w of FW_string s \<Rightarrow> JString s | FW_number r \<Rightarrow> JNumber (Fin r))"

definition optField :: "string \<Rightarrow> ('a \<Rightarrow> jsvalue) \<Rightarrow> 'a option \<Rightarrow> jsobject" where
  "optField k f v = (case v of None \<Rightarrow> [] | Some a \<Rightarrow> [(k, f a)])"

definition toJs :: "CanvasNode \<Rightarrow> jsobject" where
  "toJs n =
     [(''id'', JString (n_id n)), (''type'', JString (typeName (n_type n)))]
     @ optField ''assetId'' JString (n_assetId n)
     @ optField ''url'' JString (n_url n)
     @ [(''x'', JNumber (Fin (n_x n))), (''y'', JNumber (Fin (n_y n))),
        (''width'', JNumber (Fin (n_width n))), (''height'', JNumber (Fin (n_height n))),
        (''rotation'', JNumber (Fin (n_rotation n))), (''opacity'', JNumber (Fin (n_opacity n))),
        (''locked'', JBool (n_locked n)), (''zIndex'', JNumber (Fin (real_of_int (n_zIndex n))))]
     @ optField ''blendMode'' JString (n_blendMode n)
     @ optField ''shadow'' JBool (n_shadow n)
     @ optField ''radius'' (\<lambda>r. JNumber (Fin r)) (n_radius n)
     @ optField ''text'' JString (n_text n)
     @ optField ''fontFamily'' JString (n_fontFamily n)
     @ optField ''fontSize'' (\<lambda>r. JNumber (Fin r)) (n_fontSize n)
     @ optField ''fontWeight'' weightValue (n_fontWeight n)
     @ optField ''fill'' JString (n_fill n)
     @ optField ''textAlign'' (\<lambda>a. JString (alignName a)) (n_textAlign n)"

definition readString :: "jsvalue option \<Rightarrow> string option" where
  "readString v = (case v of Some (JString s) \<Rightarrow> Some s | _ \<Rightarrow> None)"

definition readNumber :: "jsvalue option \<Rightarrow> real option" where
  "readNumber v = (case v of Some (JNumber (Fin r)) \<Rightarrow> Some r | _ \<Rightarrow> None)"

definition readBool :: "jsvalue option \<Rightarrow> bool option" where
  "readBool v = (case v of Some (JBool b) \<Rightarrow> Some b | _ \<Rightarrow> None)"

definition readType :: "jsvalue option \<Rightarrow> NodeType" where
  "readType v =
     (if v = Some (JString ''video'') then T_video
      else if v = Some (JString ''group'') then T_group
      else if v = Some (JString ''text'') then T_text
      else T_image)"

definition readAlign :: "jsvalue option \<Rightarrow> TextAlign option" where
  "readAlign v =
     (if v = Some (JString ''left'') then Some TA_left
      else if v = Some (JString ''center'') then Some TA_center
      else if v = Some (JString ''right'') then Some TA_right
      else if v = Some (JString ''justify'') then Some TA_justify
      else None)"

definition readWeight :: "jsvalue option \<Rightarrow> FontWeight option" where
  "readWeight v =
     (case v of Some (JString s) \<Rightarrow> Some (FW_string s)
      | Some (JNumber (Fin r)) \<Rightarrow> Some (FW_number r)
      | _ \<Rightarrow> None)"

definition orElse :: "'a option \<Rightarrow> 'a \<Rightarrow> 'a" where
  "orElse v d = (case v of None \<Rightarrow> d | Some a \<Rightarrow> a)"

definition fromJs :: "jsobject \<Rightarrow> CanvasNode" where
  "fromJs obj =
     \<lparr>n_id = orElse (readString (map_of obj ''id'')) [],
      n_type = readType (map_of obj ''type''),
      n_assetId = readString (map_of obj ''assetId''),
      n_url = readString (map_of obj ''url''),
      n_x = orElse (readNumber (map_of obj ''x'')) 0,
      n_y = orElse (readNumber (map_of obj ''y'')) 0,
      n_width = orElse (readNumber (map_of obj ''width'')) 0,
      n_height = orElse (readNumber (map_of obj ''height'')) 0,
      n_rotation = orElse (readNumber (map_of obj ''rotation'')) 0,
      n_opacity = orElse (readNumber (map_of obj ''opacity'')) 0,
      n_locked = orElse (readBool (map_of obj ''locked'')) False,
      n_zIndex = \<lfloor>orElse (readNumber (map_of obj ''zIndex'')) 0\<rfloor>,
      n_blendMode = readString (map_of obj ''blendMode''),
      n_shadow = readBool (map_of obj ''shadow''),
      n_radius = readNumber (map_of obj ''radius''),
      n_text = readString (map_of obj ''text''),
      n_fontFamily = readString (map_of obj ''fontFamily''),
      n_fontSize = readNumber (map_of obj ''fontSize''),
      n_fontWeight = readWeight (map_of obj ''fontWeight''),
      n_fill = readString (map_of obj ''fill''),
      n_textAlign = readAlign (map_of obj ''textAlign'')\<rparr>"

text \<open>
  \<^verbatim>\<open>JSON.parse(JSON.stringify(nodes))\<close> on a collection of nodes of the interface:
  the round trip of the objects they are. (Lemma \<open>json_clone_id\<close>: on these nodes,
  whose numbers are finite, it gives back an equal collection. On objects with other
  values it does not: see \<open>saveHistoryRaw\<close> below.)
\<close>

definition json_clone :: "CanvasNode list \<Rightarrow> CanvasNode list" where
  "json_clone ns = map fromJs (map json_props (map toJs ns))"

section \<open>Store actions (src/store/canvasStore.ts)\<close>

text \<open>
  \<^verbatim>\<open>nanoid()\<close> and \<^verbatim>\<open>Date.now()\<close> are supplied by the environment: every action
  that calls them takes their results as arguments.
\<close>

definition saveHistory :: "int \<Rightarrow> CanvasStore \<Rightarrow> CanvasStore" where
  "saveHistory now s =
     (let sliced = js_slice0 (history s) (historyIndex s + 1);
          pushed = sliced @ [\<lparr>h_nodes = json_clone (nodes s), h_timestamp = now\<rparr>];
          newHistory = (if length pushed > 50 then tl pushed else pushed)
      in s\<lparr>history := newHistory, historyIndex := int (length newHistory) - 1\<rparr>)"

definition addNode :: "CanvasNode \<Rightarrow> string \<Rightarrow> int \<Rightarrow> CanvasStore \<Rightarrow> CanvasStore" where
  "addNode node newId now s =
     (let newNode = node\<lparr>n_id := newId, n_zIndex := int (length (nodes s))\<rparr>
      in saveHistory now (s\<lparr>nodes := nodes s @ [newNode]\<rparr>))"

text \<open>The object spread \<^verbatim>\<open>{ ...node, ...updates }\<close>: every key present in the
  updates wins.\<close>

definition applyUpdates :: "CanvasNode \<Rightarrow> NodeUpdates \<Rightarrow> CanvasNode" where
  "applyUpdates node u =
     \<lparr>n_id = (case u_id u of None \<Rightarrow> n_id node | Some v \<Rightarrow> v),
      n_type = (case u_type u of None \<Rightarrow> n_type node | Some v \<Rightarrow> v),
      n_assetId = (case u_assetId u of None \<Rightarrow> n_assetId node | Some v \<Rightarrow> v),
      n_url = (case u_url u of None \<Rightarrow> n_url node | Some v \<Rightarrow> v),
      n_x = (case u_x u of None \<Rightarrow> n_x node | Some v \<Rightarrow> v),
      n_y = (case u_y u of None \<Rightarrow> n_y node | Some v \<Rightarrow> v),
      n_width = (case u_width u of None \<Rightarrow> n_width node | Some v \<Rightarrow> v),
      n_height = (case u_height u of None \<Rightarrow> n_height node | Some v \<Rightarrow> v),
      n_rotation = (case u_rotation u of None \<Rightarrow> n_rotation node | Some v \<Rightarrow> v),
      n_opacity = (case u_opacity u of None \<Rightarrow> n_opacity node | Some v \<Rightarrow> v),
      n_locked = (case u_locked u of None \<Rightarrow> n_locked node | Some v \<Rightarrow> v),
      n_zIndex = (case u_zIndex u of None \<Rightarrow> n_zIndex node | Some v \<Rightarrow> v),
      n_blendMode = (case u_blendMode u of None \<Rightarrow> n_blendMode node | Some v \<Rightarrow> v),
      n_shadow = (case u_shadow u of None \<Rightarrow> n_shadow node | Some v \<Rightarrow> v),
      n_radius = (case u_radius u of None \<Rightarrow> n_radius node | Some v \<Rightarrow> v),
      n_text = (case u_text u of None \<Rightarrow> n_text node | Some v \<Rightarrow> v),
      n_fontFamily = (case u_fontFamily u of None \<Rightarrow> n_fontFamily node | Some v \<Rightarrow> v),
      n_fontSize = (case u_fontSize u of None \<Rightarrow> n_fontSize node | Some v \<Rightarrow> v),
      n_fontWeight = (case u_fontWeight u of None \<Rightarrow> n_fontWeight node | Some v \<Rightarrow> v),
      n_fill = (case u_fill u of None \<Rightarrow> n_fill node | Some v \<Rightarrow> v),
      n_textAlign = (case u_textAlign u of None \<Rightarrow> n_textAlign node | Some v \<Rightarrow> v)\<rparr>"

definition updateNode :: "string \<Rightarrow> NodeUpdates \<Rightarrow> int \<Rightarrow> CanvasStore \<Rightarrow> CanvasStore" where
  "updateNode i updates now s =
     saveHistory now
       (s\<lparr>nodes := map (\<lambda>node. if n_id node = i then applyUpdates node updates else node) (nodes s)\<rparr>)"

definition deleteNode :: "string \<Rightarrow> int \<Rightarrow> CanvasStore \<Rightarrow> CanvasStore" where
  "deleteNode i now s =
     saveHistory now
       (s\<lparr>nodes := filter (\<lambda>node. n_id node \<noteq> i) (nodes s),
          selectedNodeIds := filter (\<lambda>nid. nid \<noteq> i) (selectedNodeIds s)\<rparr>)"

definition deleteSelectedNodes :: "int \<Rightarrow> CanvasStore \<Rightarrow> CanvasStore" where
  "deleteSelectedNodes now s =
     saveHistory now
       (s\<lparr>nodes := filter (\<lambda>node. n_id node \<notin> set (selectedNodeIds s)) (nodes s),
          selectedNodeIds := []\<rparr>)"

definition selectNode :: "string \<Rightarrow> bool \<Rightarrow> CanvasStore \<Rightarrow> CanvasStore" where
  "selectNode i multi s =
     (if multi then
        (let isSelected = (i \<in> set (selectedNodeIds s))
         in s\<lparr>selectedNodeIds :=
              (if isSelected then filter (\<lambda>nid. nid \<noteq> i) (selectedNodeIds s)
               else selectedNodeIds s @ [i])\<rparr>)
      else s\<lparr>selectedNodeIds := [i]\<rparr>)"

definition selectNodes :: "string list \<Rightarrow> CanvasStore \<Rightarrow> CanvasStore" where
  "selectNodes ids s = s\<lparr>selectedNodeIds := ids\<rparr>"

definition clearSelection :: "CanvasStore \<Rightarrow> CanvasStore" where
  "clearSelection s = s\<lparr>selectedNodeIds := []\<rparr>"

definition setCanvasMode :: "CanvasMode \<Rightarrow> CanvasStore \<Rightarrow> CanvasStore" where
  "setCanvasMode mode s = s\<lparr>canvasMode := mode\<rparr>"

text \<open>
  \<^verbatim>\<open>selectedNodes.indexOf(node)\<close> inside the \<^verbatim>\<open>map\<close> compares object
  references; the filtered array holds each node object once, so it is the position
  of the node in \<^verbatim>\<open>selectedNodes\<close>. The \<open>k\<close>-th call of \<^verbatim>\<open>nanoid()\<close> returns
  \<open>newIds k\<close>.
\<close>

definition duplicateSelected :: "(nat \<Rightarrow> string) \<Rightarrow> int \<Rightarrow> CanvasStore \<Rightarrow> CanvasStore" where
  "duplicateSelected newIds now s =
     (let selectedNodes = filter (\<lambda>node. n_id node \<in> set (selectedNodeIds s)) (nodes s);
          newNodes = map (\<lambda>(k, node).
                            node\<lparr>n_id := newIds k,
                                 n_x := n_x node + 20,
                                 n_y := n_y node + 20,
                                 n_zIndex := int (length (nodes s)) + int k\<rparr>)
                         (enumerate 0 selectedNodes)
      in saveHistory now
           (s\<lparr>nodes := nodes s @ newNodes, selectedNodeIds := map n_id newNodes\<rparr>))"

subsection \<open>alignNodes\<close>

definition GAP :: real where
  "GAP = 20"

text \<open>
  \<^verbatim>\<open>updatedNodes[nodeIndex] = { ...updatedNodes[nodeIndex], x: .., y: .. }\<close>. With
  \<^verbatim>\<open>nodeIndex = -1\<close> JavaScript stores a property named "-1" and no element of the
  array changes.
\<close>

definition assignAt :: "nat option \<Rightarrow> (CanvasNode \<Rightarrow> CanvasNode) \<Rightarrow> CanvasNode list \<Rightarrow> CanvasNode list" where
  "assignAt nodeIndex f updatedNodes =
     (case nodeIndex of None \<Rightarrow> updatedNodes
      | Some k \<Rightarrow> updatedNodes[k := f (updatedNodes ! k)])"

fun rowLoop :: "CanvasNode list \<Rightarrow> real \<Rightarrow> real \<Rightarrow> CanvasNode list \<Rightarrow> CanvasNode list" where
  "rowLoop [] currentX avgY updatedNodes = updatedNodes"
| "rowLoop (node # rest) currentX avgY updatedNodes =
     rowLoop rest (currentX + (n_width node + GAP)) avgY
       (assignAt (findIndex (\<lambda>n. n_id n = n_id node) updatedNodes)
                 (\<lambda>old. old\<lparr>n_x := currentX, n_y := avgY\<rparr>) updatedNodes)"

fun columnLoop :: "CanvasNode list \<Rightarrow> real \<Rightarrow> real \<Rightarrow> CanvasNode list \<Rightarrow> CanvasNode list" where
  "columnLoop [] avgX currentY updatedNodes = updatedNodes"
| "columnLoop (node # rest) avgX currentY updatedNodes =
     columnLoop rest avgX (currentY + (n_height node + GAP))
       (assignAt (findIndex (\<lambda>n. n_id n = n_id node) updatedNodes)
                 (\<lambda>old. old\<lparr>n_x := avgX, n_y := currentY\<rparr>) updatedNodes)"

text \<open>
  \<^verbatim>\<open>Math.ceil(Math.sqrt(n))\<close> for an array length \<open>n\<close>: the least \<open>k\<close> with
  \<open>n \<le> k * k\<close>, found by counting up (lemma \<open>ceilSqrt_eq\<close> relates it to the real
  square root).
\<close>

function ceilSqrtFrom :: "nat \<Rightarrow> nat \<Rightarrow> nat" where
  "ceilSqrtFrom k n = (if n \<le> k * k then k else ceilSqrtFrom (Suc k) n)"
  by pat_completeness auto
termination
proof (relation "measure (\<lambda>(k, n). n - k)")
  show "wf (measure (\<lambda>(k, n). n - k))" by simp
next
  fix k n :: nat
  assume "\<not> n \<le> k * k"
  then have "k < n"
    by (metis le_square linorder_not_le order.strict_trans1)
  then show "((Suc k, n), (k, n)) \<in> measure (\<lambda>(k, n). n - k)" by simp
qed

definition ceilSqrt :: "nat \<Rightarrow> nat" where
  "ceilSqrt n = ceilSqrtFrom 0 n"

text \<open>\<^verbatim>\<open>Math.max(...vs)\<close> on a non-empty array (the call site has at least two
  elements; on no arguments JavaScript gives \<^verbatim>\<open>-Infinity\<close>).\<close>

definition maxOf :: "real list \<Rightarrow> real" where
  "maxOf vs = fold max (tl vs) (hd vs)"

fun gridLoop :: "CanvasNode list \<Rightarrow> nat \<Rightarrow> nat \<Rightarrow> real \<Rightarrow> real \<Rightarrow> real \<Rightarrow> real
                  \<Rightarrow> CanvasNode list \<Rightarrow> CanvasNode list" where
  "gridLoop [] index numCols maxWidth maxHeight startX startY updatedNodes = updatedNodes"
| "gridLoop (node # rest) index numCols maxWidth maxHeight startX startY updatedNodes =
     (let col = index mod numCols;
          row = index div numCols
      in gridLoop rest (Suc index) numCols maxWidth maxHeight startX startY
           (assignAt (findIndex (\<lambda>n. n_id n = n_id node) updatedNodes)
              (\<lambda>old. old\<lparr>n_x := startX + real col * (maxWidth + GAP) + (maxWidth - n_width node) / 2,
                          n_y := startY + real row * (maxHeight + GAP) + (maxHeight - n_height node) / 2\<rparr>)
              updatedNodes))"

text \<open>
  \<^verbatim>\<open>Array.prototype.sort\<close> is stable; with the comparators \<^verbatim>\<open>a.x - b.x\<close> and
  \<^verbatim>\<open>a.y - b.y\<close> it is the stable sort by that key, \<^const>\<open>sort_key\<close>. The early
  \<^verbatim>\<open>return\<close> for fewer than two selected nodes guards every \<open>hd\<close> below.
\<close>

definition alignNodes :: "Alignment \<Rightarrow> int \<Rightarrow> CanvasStore \<Rightarrow> CanvasStore" where
  "alignNodes alignment now s =
     (let selectedNodes = filter (\<lambda>node. n_id node \<in> set (selectedNodeIds s)) (nodes s)
      in if length selectedNodes < 2 then s
         else
           (let updatedNodes =
              (case alignment of
                 A_row \<Rightarrow>
                   (let sortedNodes = sort_key n_x selectedNodes;
                        currentX = n_x (hd sortedNodes);
                        avgY = foldl (\<lambda>sum n. sum + n_y n) 0 sortedNodes / real (length sortedNodes)
                    in rowLoop sortedNodes currentX avgY (nodes s))
               | A_column \<Rightarrow>
                   (let sortedNodes = sort_key n_y selectedNodes;
                        avgX = foldl (\<lambda>sum n. sum + n_x n) 0 sortedNodes / real (length sortedNodes);
                        currentY = n_y (hd sortedNodes)
                    in columnLoop sortedNodes avgX currentY (nodes s))
               | A_grid \<Rightarrow>
                   (let numCols = ceilSqrt (length selectedNodes);
                        maxWidth = maxOf (map n_width selectedNodes);
                        maxHeight = maxOf (map n_height selectedNodes);
                        startX = n_x (hd selectedNodes);
                        startY = n_y (hd selectedNodes)
                    in gridLoop selectedNodes 0 numCols maxWidth maxHeight startX startY (nodes s)))
            in saveHistory now (s\<lparr>nodes := updatedNodes\<rparr>)))"

subsection \<open>undo and redo\<close>

text \<open>Reading \<^verbatim>\<open>.nodes\<close> of \<^verbatim>\<open>state.history[newIndex]\<close> throws a TypeError when
  that entry is \<^verbatim>\<open>undefined\<close>.\<close>

definition undo :: "CanvasStore \<Rightarrow> error + CanvasStore" where
  "undo s =
     (if historyIndex s > 0 then
        (let newIndex = historyIndex s - 1
         in case js_index (history s) newIndex of
              None \<Rightarrow> Inl TypeError
            | Some entry \<Rightarrow>
                Inr (s\<lparr>nodes := json_clone (h_nodes entry),
                       historyIndex := newIndex,
                       selectedNodeIds := []\<rparr>))
      else Inr s)"

definition redo :: "CanvasStore \<Rightarrow> error + CanvasStore" where
  "redo s =
     (if historyIndex s < int (length (history s)) - 1 then
        (let newIndex = historyIndex s + 1
         in case js_index (history s) newIndex of
              None \<Rightarrow> Inl TypeError
            | Some entry \<Rightarrow>
                Inr (s\<lparr>nodes := json_clone (h_nodes entry),
                       historyIndex := newIndex,
                       selectedNodeIds := []\<rparr>))
      else Inr s)"

subsection \<open>Sequences of store calls\<close>

datatype Action =
    AddNode CanvasNode string int
  | UpdateNode string NodeUpdates int
  | DeleteNode string int
  | DeleteSelectedNodes int
  | DuplicateSelected "nat \<Rightarrow> string" int
  | AlignNodes Alignment int
  | Undo
  | Redo
  | SelectNode string bool
  | SelectNodes "string list"
  | ClearSelection

fun step :: "Action \<Rightarrow> CanvasStore \<Rightarrow> error + CanvasStore" where
  "step (AddNode node newId now) s = Inr (addNode node newId now s)"
| "step (UpdateNode i updates now) s = Inr (updateNode i updates now s)"
| "step (DeleteNode i now) s = Inr (deleteNode i now s)"
| "step (DeleteSelectedNodes now) s = Inr (deleteSelectedNodes now s)"
| "step (DuplicateSelected newIds now) s = Inr (duplicateSelected newIds now s)"
| "step (AlignNodes alignment now) s = Inr (alignNodes alignment now s)"
| "step Undo s = undo s"
| "step Redo s = redo s"
| "step (SelectNode i multi) s = Inr (selectNode i multi s)"
| "step (SelectNodes ids) s = Inr (selectNodes ids s)"
| "step ClearSelection s = Inr (clearSelection s)"

text \<open>A thrown error ends the sequence, as an uncaught exception would.\<close>

fun run :: "Action list \<Rightarrow> CanvasStore \<Rightarrow> error + CanvasStore" where
  "run [] s = Inr s"
| "run (a # as) s = (case step a s of Inl e \<Rightarrow> Inl e | Inr s' \<Rightarrow> run as s')"

subsection \<open>The history engine on plain JavaScript objects\<close>

text \<open>
  The same \<^verbatim>\<open>saveHistory\<close>, \<^verbatim>\<open>undo\<close>, \<^verbatim>\<open>redo\<close> and \<^verbatim>\<open>updateNode\<close>, on
  stores whose nodes are arbitrary objects, so that values outside the interface (an
  infinite height, a key holding \<^verbatim>\<open>undefined\<close>) can be followed through the
  snapshot. \<open>toRawStore\<close> embeds the stores of the interface.
\<close>

record RawHistoryState =
  rh_nodes :: "jsobject list"
  rh_timestamp :: int

record RawStore =
  r_nodes :: "jsobject list"
  r_selectedNodeIds :: "string list"
  r_history :: "RawHistoryState list"
  r_historyIndex :: int

definition saveHistoryRaw :: "int \<Rightarrow> RawStore \<Rightarrow> RawStore" where
  "saveHistoryRaw now s =
     (let sliced = js_slice0 (r_history s) (r_historyIndex s + 1);
          pushed = sliced @ [\<lparr>rh_nodes = map json_props (r_nodes s), rh_timestamp = now\<rparr>];
          newHistory = (if length pushed > 50 then tl pushed else pushed)
      in s\<lparr>r_history := newHistory, r_historyIndex := int (length newHistory) - 1\<rparr>)"

definition undoRaw :: "RawStore \<Rightarrow> error + RawStore" where
  "undoRaw s =
     (if r_historyIndex s > 0 then
        (let newIndex = r_historyIndex s - 1
         in case js_index (r_history s) newIndex of
              None \<Rightarrow> Inl TypeError
            | Some entry \<Rightarrow>
                Inr (s\<lparr>r_nodes := map json_props (rh_nodes entry),
                       r_historyIndex := newIndex,
                       r_selectedNodeIds := []\<rparr>))
      else Inr s)"

definition redoRaw :: "RawStore \<Rightarrow> error + RawStore" where
  "redoRaw s =
     (if r_historyIndex s < int (length (r_history s)) - 1 then
        (let newIndex = r_historyIndex s + 1
         in case js_index (r_history s) newIndex of
              None \<Rightarrow> Inl TypeError
            | Some entry \<Rightarrow>
                Inr (s\<lparr>r_nodes := map json_props (rh_nodes entry),
                       r_historyIndex := newIndex,
                       r_selectedNodeIds := []\<rparr>))
      else Inr s)"

text \<open>The object spread \<^verbatim>\<open>{ ...node, ...updates }\<close>: the properties of the node in
  their order, each overwritten where the updates have the key, then the new keys.\<close>

definition objectSpread :: "jsobject \<Rightarrow> jsobject \<Rightarrow> jsobject" where
  "objectSpread node updates = foldl (\<lambda>acc (k, v). AList.update k v acc) node updates"

definition updateNodeRaw :: "string \<Rightarrow> jsobject \<Rightarrow> int \<Rightarrow> RawStore \<Rightarrow> RawStore" where
  "updateNodeRaw i updates now s =
     saveHistoryRaw now
       (s\<lparr>r_nodes := map (\<lambda>node. if map_of node ''id'' = Some (JString i)
                                  then objectSpread node updates else node) (r_nodes s)\<rparr>)"

definition toRawStore :: "CanvasStore \<Rightarrow> RawStore" where
  "toRawStore s =
     \<lparr>r_nodes = map toJs (nodes s),
      r_selectedNodeIds = selectedNodeIds s,
      r_history = map (\<lambda>h. \<lparr>rh_nodes = map toJs (h_nodes h), rh_timestamp = h_timestamp h\<rparr>)
                      (history s),
      r_historyIndex = historyIndex s\<rparr>"

text \<open>\<^verbatim>\<open>undo(); redo();\<close>\<close>

definition undoThenRedo :: "CanvasStore \<Rightarrow> error + CanvasStore" where
  "undoThenRedo s = (case undo s of Inl e \<Rightarrow> Inl e | Inr s2 \<Rightarrow> redo s2)"

definition undoThenRedoRaw :: "RawStore \<Rightarrow> error + RawStore" where
  "undoThenRedoRaw s = (case undoRaw s of Inl e \<Rightarrow> Inl e | Inr s2 \<Rightarrow> redoRaw s2)"

section \<open>Selection controller (src/components/Canvas.tsx)\<close>

text \<open>
  A fabric object as far as the component reads and writes it: the properties compared
  and set by the node synchronisation, and \<^verbatim>\<open>data?.id\<close>. Fabric gives every
  numeric property a value, so \<^verbatim>\<open>||\<close> on them only ever replaces 0; \<^verbatim>\<open>src\<close>
  is a property an image object need not have.
\<close>

record FabricObject =
  o_left :: real
  o_top :: real
  o_width :: real
  o_height :: real
  o_scaleX :: real
  o_scaleY :: real
  o_angle :: real
  o_opacity :: real
  o_src :: "string option"
  o_selectable :: bool
  o_dataId :: "string option"

text \<open>The event of \<^verbatim>\<open>selection:created\<close> and \<^verbatim>\<open>selection:updated\<close>: both
  arrays may be missing.\<close>

record SelectionEvent =
  e_selected :: "FabricObject list option"
  e_deselected :: "FabricObject list option"

text \<open>\<^verbatim>\<open>objs.map(obj => obj.get('data')?.id).filter(Boolean)\<close>: objects without an
  id and empty ids drop out.\<close>

definition eventIds :: "FabricObject list \<Rightarrow> string list" where
  "eventIds objs = filter (\<lambda>i. i \<noteq> []) (List.map_filter o_dataId objs)"

text \<open>
  The handlers that the mount effect registers. They read the \<^verbatim>\<open>canvasMode\<close> of
  the render in which that effect ran (its dependency list is empty); that value is
  their first argument. Of their effects only those on the store are modelled: the
  writes to the component's own state (mini chat window, dragged image) never reach
  \<^verbatim>\<open>selectedNodeIds\<close>, and \<^verbatim>\<open>canvas.discardActiveObject()\<close> only makes fabric
  fire \<^verbatim>\<open>selection:cleared\<close>, whose handlers call the same \<^verbatim>\<open>clearSelection()\<close>
  that follows it.
\<close>

definition onSelectionCreated :: "CanvasMode \<Rightarrow> SelectionEvent \<Rightarrow> CanvasStore \<Rightarrow> CanvasStore" where
  "onSelectionCreated mode e s =
     (case e_selected e of
        None \<Rightarrow> s
      | Some selected \<Rightarrow>
          if length selected > 0 then
            (let ids = eventIds selected
             in if length ids > 0 then
                  (if mode = M_chat then
                     (if length ids = 1 then selectNode (ids ! 0) False s
                      else clearSelection s)
                   else if mode = M_dragdrop then
                     (if length ids = 1 then selectNode (ids ! 0) False s
                      else clearSelection s)
                   else
                     (if length ids > 1 then selectNodes ids s
                      else selectNode (ids ! 0) False s))
                else s)
          else s)"

definition onSelectionUpdated :: "CanvasMode \<Rightarrow> SelectionEvent \<Rightarrow> CanvasStore \<Rightarrow> CanvasStore" where
  "onSelectionUpdated mode e s =
     (case e_selected e of
        None \<Rightarrow> s
      | Some selected \<Rightarrow>
          if length selected > 0 then
            (let ids = eventIds selected
             in if length ids > 0 then
                  (if mode = M_chat then
                     (if length ids = 1 then selectNode (ids ! 0) False s
                      else clearSelection s)
                   else
                     (if length ids > 1 then selectNodes ids s
                      else selectNode (ids ! 0) False s))
                else s)
          else s)"

text \<open>
  The handler of the drag-and-drop effect ("Allow normal selection in drag & drop
  mode"), registered for both events while \<^verbatim>\<open>canvasMode\<close> is \<^verbatim>\<open>dragdrop\<close>. Its
  closure holds the \<^verbatim>\<open>selectedNodeIds\<close> of the render that registered it.
\<close>

definition handleSelection :: "string list \<Rightarrow> SelectionEvent \<Rightarrow> CanvasStore \<Rightarrow> CanvasStore" where
  "handleSelection closureSelectedNodeIds e s =
     (case e_selected e of
        Some (obj # objs) \<Rightarrow> selectNodes (eventIds (obj # objs)) s
      | _ \<Rightarrow>
         (case e_deselected e of
            Some (d # ds) \<Rightarrow>
              (let remainingIds =
                     filter (\<lambda>i. \<not> list_ex (\<lambda>obj. o_dataId obj = Some i) (d # ds))
                            closureSelectedNodeIds
               in selectNodes remainingIds s)
          | _ \<Rightarrow> s))"

text \<open>
  One event: fabric calls the listeners in the order of their registration, first the
  handler of the mount effect, then, in drag-and-drop mode, \<^const>\<open>handleSelection\<close>.
\<close>

definition fireSelectionCreated :: "CanvasMode \<Rightarrow> SelectionEvent \<Rightarrow> CanvasStore \<Rightarrow> CanvasStore" where
  "fireSelectionCreated handlerMode e s =
     (let s1 = onSelectionCreated handlerMode e s
      in if canvasMode s = M_dragdrop then handleSelection (selectedNodeIds s) e s1 else s1)"

definition fireSelectionUpdated :: "CanvasMode \<Rightarrow> SelectionEvent \<Rightarrow> CanvasStore \<Rightarrow> CanvasStore" where
  "fireSelectionUpdated handlerMode e s =
     (let s1 = onSelectionUpdated handlerMode e s
      in if canvasMode s = M_dragdrop then handleSelection (selectedNodeIds s) e s1 else s1)"

section \<open>Scene reconciler (src/components/Canvas.tsx, the node synchronisation effect)\<close>

text \<open>\<^verbatim>\<open>a || d\<close> on numbers.\<close>

definition js_or :: "real \<Rightarrow> real \<Rightarrow> real" where
  "js_or a d = (if a = 0 then d else a)"

text \<open>
  What a pass does to drawables: \<^verbatim>\<open>canvas.remove\<close> with \<^verbatim>\<open>objectMap.delete\<close>,
  \<^verbatim>\<open>existingObj.set(updates)\<close>, \<^verbatim>\<open>setSrc\<close>, the start of
  \<^verbatim>\<open>loadImageWithCORS\<close>, and \<^verbatim>\<open>canvas.add\<close> with \<^verbatim>\<open>objectMap.set\<close> once a
  load has completed. \<^verbatim>\<open>renderAll\<close> changes no drawable and is not recorded.
\<close>

datatype SceneMutation =
    ObjectRemoved string
  | ObjectSet string
  | SrcReloaded string string
  | LoadStarted string string
  | ObjectAdded string

text \<open>
  \<^verbatim>\<open>objectMapRef.current\<close>, a JavaScript \<^verbatim>\<open>Map\<close>, as an association list in
  insertion order: \<^const>\<open>map_of\<close> is \<^verbatim>\<open>get\<close>, \<^const>\<open>AList.update\<close> is
  \<^verbatim>\<open>set\<close>. The canvas holds the same objects; its own list is not kept apart.
\<close>

type_synonym ObjectMap = "(string \<times> FabricObject) list"

text \<open>\<^verbatim>\<open>!node.url || node.url === 'undefined' || node.url === 'null'\<close>\<close>

definition invalidUrl :: "string option \<Rightarrow> bool" where
  "invalidUrl url =
     (case url of None \<Rightarrow> True
      | Some u \<Rightarrow> u = [] \<or> u = ''undefined'' \<or> u = ''null'')"

text \<open>The first loop: drawables whose id no node has any more are removed.\<close>

definition removeStale :: "CanvasNode list \<Rightarrow> ObjectMap \<Rightarrow> ObjectMap \<times> SceneMutation list" where
  "removeStale ns objectMap =
     (let existingNodeIds = set (map n_id ns)
      in (filter (\<lambda>(nodeId, fabricObj). nodeId \<in> existingNodeIds) objectMap,
          map (\<lambda>(nodeId, fabricObj). ObjectRemoved nodeId)
              (filter (\<lambda>(nodeId, fabricObj). nodeId \<notin> existingNodeIds) objectMap)))"

text \<open>
  The branch for a node that has a drawable. \<^verbatim>\<open>currentSrc !== node.url\<close> compares
  a string with a string or \<^verbatim>\<open>undefined\<close>. An invalid url returns after the
  \<^verbatim>\<open>set\<close>, before \<^verbatim>\<open>setSrc\<close>.
\<close>

definition syncExisting :: "CanvasNode \<Rightarrow> FabricObject \<Rightarrow> FabricObject \<times> SceneMutation list" where
  "syncExisting node existingObj =
     (let currentLeft = js_or (o_left existingObj) 0;
          currentTop = js_or (o_top existingObj) 0;
          currentWidth = js_or (o_width existingObj) 1 * js_or (o_scaleX existingObj) 1;
          currentHeight = js_or (o_height existingObj) 1 * js_or (o_scaleY existingObj) 1;
          currentSrc = (case o_src existingObj of None \<Rightarrow> [] | Some v \<Rightarrow> v);
          positionChanged = (\<bar>currentLeft - n_x node\<bar> > 0.1 \<or> \<bar>currentTop - n_y node\<bar> > 0.1);
          sizeChanged = (\<bar>currentWidth - n_width node\<bar> > 0.1 \<or> \<bar>currentHeight - n_height node\<bar> > 0.1);
          rotationChanged = (\<bar>js_or (o_angle existingObj) 0 - n_rotation node\<bar> > 0.1);
          opacityChanged = (\<bar>js_or (o_opacity existingObj) 1 - n_opacity node\<bar> > 0.01);
          urlChanged = (n_url node \<noteq> Some currentSrc)
      in if positionChanged \<or> sizeChanged \<or> rotationChanged \<or> opacityChanged \<or> urlChanged then
           (let updated = existingObj
                  \<lparr>o_left := n_x node,
                   o_top := n_y node,
                   o_scaleX := n_width node / js_or (o_width existingObj) 1,
                   o_scaleY := n_height node / js_or (o_height existingObj) 1,
                   o_angle := n_rotation node,
                   o_opacity := n_opacity node,
                   o_selectable := (\<not> n_locked node),
                   o_src := (if urlChanged \<and> n_type node = T_image then n_url node
                             else o_src existingObj)\<rparr>
            in if urlChanged \<and> n_type node = T_image then
                 (case n_url node of
                    None \<Rightarrow> (updated, [ObjectSet (n_id node)])
                  | Some u \<Rightarrow>
                      if invalidUrl (Some u) then (updated, [ObjectSet (n_id node)])
                      else (updated, [ObjectSet (n_id node), SrcReloaded (n_id node) u]))
               else (updated, [ObjectSet (n_id node)]))
         else (existingObj, []))"

text \<open>One node of the second loop. A node without a drawable starts a load when it
  is an image with a usable url; the load completes after the pass, if at all.\<close>

definition syncNode :: "CanvasNode \<Rightarrow> ObjectMap \<Rightarrow> ObjectMap \<times> SceneMutation list" where
  "syncNode node objectMap =
     (case map_of objectMap (n_id node) of
        Some existingObj \<Rightarrow>
          (let (updated, ms) = syncExisting node existingObj
           in (AList.update (n_id node) updated objectMap, ms))
      | None \<Rightarrow>
          (case n_url node of
             None \<Rightarrow> (objectMap, [])
           | Some u \<Rightarrow>
               if n_type node = T_image \<and> u \<noteq> [] then
                 (if invalidUrl (Some u) then (objectMap, [])
                  else (objectMap, [LoadStarted (n_id node) u]))
               else (objectMap, [])))"

fun syncNodes :: "CanvasNode list \<Rightarrow> ObjectMap \<Rightarrow> ObjectMap \<times> SceneMutation list" where
  "syncNodes [] objectMap = (objectMap, [])"
| "syncNodes (node # rest) objectMap =
     (let (objectMap1, ms1) = syncNode node objectMap;
          (objectMap2, ms2) = syncNodes rest objectMap1
      in (objectMap2, ms1 @ ms2))"

definition reconcile :: "CanvasNode list \<Rightarrow> ObjectMap \<Rightarrow> ObjectMap \<times> SceneMutation list" where
  "reconcile ns objectMap =
     (let (objectMap1, removed) = removeStale ns objectMap;
          (objectMap2, ms) = syncNodes ns objectMap1
      in (objectMap2, removed @ ms))"

text \<open>The \<^verbatim>\<open>then\<close> callback of a load that was begun for \<open>node\<close> and delivered
  \<open>img\<close>.\<close>

definition completeLoad :: "CanvasNode \<Rightarrow> FabricObject \<Rightarrow> ObjectMap \<Rightarrow> ObjectMap \<times> SceneMutation list" where
  "completeLoad node img objectMap =
     (if o_width img = 0 \<or> o_height img = 0 then (objectMap, [])
      else
        (let placed = img\<lparr>o_left := n_x node,
                          o_top := n_y node,
                          o_scaleX := n_width node / o_width img,
                          o_scaleY := n_height node / o_height img,
                          o_angle := n_rotation node,
                          o_opacity := n_opacity node,
                          o_selectable := (\<not> n_locked node),
                          o_dataId := Some (n_id node)\<rparr>
         in (AList.update (n_id node) placed objectMap, [ObjectAdded (n_id node)])))"

section \<open>Predicates and fixtures used by the properties\<close>

text \<open>
  The calls that reach \<^verbatim>\<open>get().saveHistory()\<close>: every node-mutating action, except
  that \<^verbatim>\<open>alignNodes\<close> returns early, before it, when fewer than two selected nodes
  exist.
\<close>

fun capturesHistory :: "Action \<Rightarrow> CanvasStore \<Rightarrow> bool" where
  "capturesHistory (AddNode node newId now) s = True"
| "capturesHistory (UpdateNode i updates now) s = True"
| "capturesHistory (DeleteNode i now) s = True"
| "capturesHistory (DeleteSelectedNodes now) s = True"
| "capturesHistory (DuplicateSelected newIds now) s = True"
| "capturesHistory (AlignNodes alignment now) s =
     (\<not> length (filter (\<lambda>node. n_id node \<in> set (selectedNodeIds s)) (nodes s)) < 2)"
| "capturesHistory Undo s = False"
| "capturesHistory Redo s = False"
| "capturesHistory (SelectNode i multi) s = False"
| "capturesHistory (SelectNodes ids) s = False"
| "capturesHistory ClearSelection s = False"

text \<open>The history invariant of the data model, with the empty history of a fresh store.\<close>

definition historyInv :: "CanvasStore \<Rightarrow> bool" where
  "historyInv s \<longleftrightarrow>
     length (history s) \<le> 50 \<and>
     (if history s = [] then historyIndex s = - 1
      else 0 \<le> historyIndex s \<and> historyIndex s < int (length (history s)))"

fun isAddOrDelete :: "Action \<Rightarrow> bool" where
  "isAddOrDelete (AddNode node newId now) = True"
| "isAddOrDelete (DeleteNode i now) = True"
| "isAddOrDelete (DeleteSelectedNodes now) = True"
| "isAddOrDelete a = False"

text \<open>Every selected id is the id of a node of the collection.\<close>

definition selectionValid :: "CanvasStore \<Rightarrow> bool" where
  "selectionValid s \<longleftrightarrow> (\<forall>i \<in> set (selectedNodeIds s). i \<in> set (map n_id (nodes s)))"

text \<open>An image node with the given id and geometry, as a caller of \<^verbatim>\<open>addNode\<close>
  would build it; used for concrete inputs.\<close>

definition imageNode :: "string \<Rightarrow> real \<Rightarrow> real \<Rightarrow> real \<Rightarrow> real \<Rightarrow> CanvasNode" where
  "imageNode i x y w h =
     \<lparr>n_id = i, n_type = T_image, n_assetId = None, n_url = None,
      n_x = x, n_y = y, n_width = w, n_height = h, n_rotation = 0, n_opacity = 1,
      n_locked = False, n_zIndex = 0, n_blendMode = None, n_shadow = None, n_radius = None,
      n_text = None, n_fontFamily = None, n_fontSize = None, n_fontWeight = None,
      n_fill = None, n_textAlign = None\<rparr>"

text \<open>The two nodes of the row-alignment example, both selected.\<close>

definition twoNodeStore :: CanvasStore where
  "twoNodeStore =
     \<lparr>nodes = [imageNode ''A'' 0 0 50 50, imageNode ''B'' 200 100 80 80],
      selectedNodeIds = [''A'', ''B''], canvasMode = M_select, history = [], historyIndex = - 1\<rparr>"

text \<open>The updates object \<^verbatim>\<open>{ x, y }\<close>: a move, all other keys absent.\<close>

definition moveTo :: "real \<Rightarrow> real \<Rightarrow> NodeUpdates" where
  "moveTo x y =
     \<lparr>u_id = None, u_type = None, u_assetId = None, u_url = None,
      u_x = Some x, u_y = Some y, u_width = None, u_height = None, u_rotation = None,
      u_opacity = None, u_locked = None, u_zIndex = None, u_blendMode = None, u_shadow = None,
      u_radius = None, u_text = None, u_fontFamily = None, u_fontSize = None,
      u_fontWeight = None, u_fill = None, u_textAlign = None\<rparr>"

text \<open>A sample of \<^verbatim>\<open>nanoid()\<close> results, pairwise different: the \<open>k\<close>-th call
  returns \<open>k + 1\<close> letters n.\<close>

definition sampleIds :: "nat \<Rightarrow> string" where
  "sampleIds k = replicate (Suc k) (CHR ''n'')"

text \<open>The store after fifty \<^verbatim>\<open>deleteSelectedNodes()\<close> calls on the fresh store
  (at time 0): no nodes, a full history.\<close>

definition fullHistoryStore :: CanvasStore where
  "fullHistoryStore =
     \<lparr>nodes = [], selectedNodeIds = [], canvasMode = M_select,
      history = replicate 50 \<lparr>h_nodes = [], h_timestamp = 0\<rparr>, historyIndex = 49\<rparr>"

text \<open>One selected node at (10, 10), the duplicate-offset example.\<close>

definition oneNodeStore :: CanvasStore where
  "oneNodeStore =
     \<lparr>nodes = [imageNode ''n1'' 10 10 40 40], selectedNodeIds = [''n1''],
      canvasMode = M_select, history = [], historyIndex = - 1\<rparr>"

text \<open>
  Following the spec's words for the grid ("original selection order"): the selected
  nodes in the order of the selection, that is of \<^verbatim>\<open>selectedNodeIds\<close>, and the
  position the grid rule gives the \<open>i\<close>-th of them when the anchor and the indices
  are taken in that order.
\<close>

definition selectionOrder :: "CanvasStore \<Rightarrow> CanvasNode list" where
  "selectionOrder s =
     concat (map (\<lambda>i. filter (\<lambda>node. n_id node = i) (nodes s)) (selectedNodeIds s))"

definition gridBySelectionOrder :: "CanvasStore \<Rightarrow> nat \<Rightarrow> real \<times> real" where
  "gridBySelectionOrder s i =
     (let chosen = selectionOrder s;
          numCols = ceilSqrt (length chosen);
          cellW = maxOf (map n_width chosen);
          cellH = maxOf (map n_height chosen);
          startX = n_x (chosen ! 0);
          startY = n_y (chosen ! 0)
      in (startX + real (i mod numCols) * (cellW + 20) + (cellW - n_width (chosen ! i)) / 2,
          startY + real (i div numCols) * (cellH + 20) + (cellH - n_height (chosen ! i)) / 2))"

text \<open>Two equal-size nodes, selected in the order Q, P (Q clicked first, P added with
  the modifier key).\<close>

definition reversedSelectionStore :: CanvasStore where
  "reversedSelectionStore =
     \<lparr>nodes = [imageNode ''P'' 0 0 100 100, imageNode ''Q'' 300 300 100 100],
      selectedNodeIds = [''Q'', ''P''], canvasMode = M_select, history = [], historyIndex = - 1\<rparr>"

text \<open>Four selected 100 x 100 nodes, the grid-centering example.\<close>

definition fourNodeStore :: CanvasStore where
  "fourNodeStore =
     \<lparr>nodes = [imageNode ''a'' 40 60 100 100, imageNode ''b'' 500 0 100 100,
               imageNode ''c'' 7 900 100 100, imageNode ''d'' 300 300 100 100],
      selectedNodeIds = [''d'', ''c'', ''b'', ''a''], canvasMode = M_select,
      history = [], historyIndex = - 1\<rparr>"

text \<open>Concrete inputs: a drag rectangle over the two nodes P and Q, and stores in
  chat and in drag-and-drop mode that hold them.\<close>

definition selectedObject :: "string \<Rightarrow> FabricObject" where
  "selectedObject i =
     \<lparr>o_left = 0, o_top = 0, o_width = 100, o_height = 100, o_scaleX = 1, o_scaleY = 1,
      o_angle = 0, o_opacity = 1, o_src = None, o_selectable = True, o_dataId = Some i\<rparr>"

definition rectangleEvent :: SelectionEvent where
  "rectangleEvent =
     \<lparr>e_selected = Some [selectedObject ''P'', selectedObject ''Q''], e_deselected = None\<rparr>"

definition chatStore :: CanvasStore where
  "chatStore =
     \<lparr>nodes = [imageNode ''P'' 0 0 100 100, imageNode ''Q'' 300 300 100 100],
      selectedNodeIds = [''P''], canvasMode = M_chat, history = [], historyIndex = - 1\<rparr>"

definition dragdropStore :: CanvasStore where
  "dragdropStore =
     \<lparr>nodes = [imageNode ''P'' 0 0 100 100, imageNode ''Q'' 300 300 100 100],
      selectedNodeIds = [], canvasMode = M_dragdrop, history = [], historyIndex = - 1\<rparr>"

text \<open>Concrete inputs: an image node with a url, and the 400 x 200 image that fabric
  delivers for it.\<close>

definition pictureNode :: CanvasNode where
  "pictureNode = (imageNode ''pic'' 10 20 200 100)\<lparr>n_url := Some ''a.png''\<rparr>"

definition loadedImage :: FabricObject where
  "loadedImage =
     \<lparr>o_left = 0, o_top = 0, o_width = 400, o_height = 200, o_scaleX = 1, o_scaleY = 1,
      o_angle = 0, o_opacity = 1, o_src = None, o_selectable = True, o_dataId = None\<rparr>"

text \<open>A node for which the pass begins a load when it has no drawable.\<close>

definition loadable :: "CanvasNode \<Rightarrow> bool" where
  "loadable node \<longleftrightarrow> n_type node = T_image \<and> \<not> invalidUrl (n_url node)"

text \<open>
  No load is pending or has failed, and the materialized nodes avoid the values on which
  the comparison of a pass never comes to rest: node ids are unique, every node without
  a drawable is one the pass begins no load for, and every node with a drawable is an
  image with a url, an opacity other than 0 and a positive width and height, as the
  data model asks of every node.
\<close>

definition settled :: "CanvasNode list \<Rightarrow> ObjectMap \<Rightarrow> bool" where
  "settled ns objectMap \<longleftrightarrow>
     distinct (map n_id ns) \<and>
     (\<forall>node \<in> set ns.
        case map_of objectMap (n_id node) of
          None \<Rightarrow> \<not> loadable node
        | Some obj \<Rightarrow> n_type node = T_image \<and> n_url node \<noteq> None \<and> n_opacity node \<noteq> 0 \<and>
                      0 < n_width node \<and> 0 < n_height node)"

text \<open>
  Concrete inputs for the round trip: the store after the first capture of one selected
  100 x 100 node, as plain objects, and the resize that the image resizer sends when
  its aspect ratio is 0 (\<^verbatim>\<open>height = width / 0\<close>).
\<close>

definition rawOneNodeStore :: RawStore where
  "rawOneNodeStore =
     saveHistoryRaw 1
       \<lparr>r_nodes = [toJs (imageNode ''n1'' 10 10 100 100)], r_selectedNodeIds = [''n1''],
        r_history = [], r_historyIndex = - 1\<rparr>"

definition infiniteResize :: jsobject where
  "infiniteResize = [(''width'', JNumber (Fin 100)), (''height'', JNumber PosInfinity)]"

text \<open>The \<^verbatim>\<open>height\<close> of every node of a store of plain objects.\<close>

definition nodeHeights :: "RawStore \<Rightarrow> jsvalue option list" where
  "nodeHeights s = map (\<lambda>node. map_of node ''height'') (r_nodes s)"

section \<open>Properties of the history engine\<close>

subsection \<open>The JSON round trip\<close>

lemma json_props_append: "json_props (a @ b) = json_props a @ json_props b"
  by (induction a) (auto split: option.splits)

lemma json_props_optField:
  assumes "\<And>a. json_value (f a) = Some (f a)"
  shows "json_props (optField k f v) = optField k f v"
  using assms by (cases v) (simp_all add: optField_def)

lemma json_value_weight: "json_value (weightValue w) = Some (weightValue w)"
  by (cases w) (simp_all add: weightValue_def)

lemma json_props_toJs: "json_props (toJs n) = toJs n"
  by (simp add: toJs_def json_props_append json_props_optField json_value_weight)

lemma map_of_optField_other:
  "k' \<noteq> k \<Longrightarrow> map_of (optField k f v @ rest) k' = map_of rest k'"
  by (cases v) (simp_all add: optField_def)

lemma map_of_optField_same:
  "map_of rest k = None \<Longrightarrow> map_of (optField k f v @ rest) k = map_option f v"
  by (cases v) (simp_all add: optField_def)

lemma map_of_optField_last_other:
  "k' \<noteq> k \<Longrightarrow> map_of (optField k f v) k' = None"
  by (cases v) (simp_all add: optField_def)

lemma map_of_optField_last_same:
  "map_of (optField k f v) k = map_option f v"
  by (cases v) (simp_all add: optField_def)

lemmas lookup_simps = map_of_optField_other map_of_optField_same map_of_optField_last_other
  map_of_optField_last_same

lemma toJs_required:
  "map_of (toJs n) ''id'' = Some (JString (n_id n))"
  "map_of (toJs n) ''type'' = Some (JString (typeName (n_type n)))"
  "map_of (toJs n) ''x'' = Some (JNumber (Fin (n_x n)))"
  "map_of (toJs n) ''y'' = Some (JNumber (Fin (n_y n)))"
  "map_of (toJs n) ''width'' = Some (JNumber (Fin (n_width n)))"
  "map_of (toJs n) ''height'' = Some (JNumber (Fin (n_height n)))"
  "map_of (toJs n) ''rotation'' = Some (JNumber (Fin (n_rotation n)))"
  "map_of (toJs n) ''opacity'' = Some (JNumber (Fin (n_opacity n)))"
  "map_of (toJs n) ''locked'' = Some (JBool (n_locked n))"
  "map_of (toJs n) ''zIndex'' = Some (JNumber (Fin (real_of_int (n_zIndex n))))"
  by (simp_all add: toJs_def lookup_simps del: map_of_append)

lemma toJs_optional:
  "map_of (toJs n) ''assetId'' = map_option JString (n_assetId n)"
  "map_of (toJs n) ''url'' = map_option JString (n_url n)"
  "map_of (toJs n) ''blendMode'' = map_option JString (n_blendMode n)"
  "map_of (toJs n) ''shadow'' = map_option JBool (n_shadow n)"
  "map_of (toJs n) ''radius'' = map_option (\<lambda>r. JNumber (Fin r)) (n_radius n)"
  "map_of (toJs n) ''text'' = map_option JString (n_text n)"
  "map_of (toJs n) ''fontFamily'' = map_option JString (n_fontFamily n)"
  "map_of (toJs n) ''fontSize'' = map_option (\<lambda>r. JNumber (Fin r)) (n_fontSize n)"
  "map_of (toJs n) ''fontWeight'' = map_option weightValue (n_fontWeight n)"
  "map_of (toJs n) ''fill'' = map_option JString (n_fill n)"
  "map_of (toJs n) ''textAlign'' = map_option (\<lambda>a. JString (alignName a)) (n_textAlign n)"
  by (simp_all add: toJs_def lookup_simps del: map_of_append)

lemma readType_typeName: "readType (Some (JString (typeName t))) = t"
  by (cases t) (simp_all add: readType_def typeName_def)

lemma readAlign_alignName: "readAlign (map_option (\<lambda>a. JString (alignName a)) v) = v"
proof (cases v)
  case None
  then show ?thesis by (simp add: readAlign_def)
next
  case (Some a)
  then show ?thesis by (cases a) (simp_all add: readAlign_def alignName_def)
qed

lemma readWeight_weightValue: "readWeight (map_option weightValue v) = v"
proof (cases v)
  case None
  then show ?thesis by (simp add: readWeight_def)
next
  case (Some w)
  then show ?thesis by (cases w) (simp_all add: readWeight_def weightValue_def)
qed

lemma readString_JString: "readString (map_option JString v) = v"
  by (cases v) (simp_all add: readString_def)

lemma readBool_JBool: "readBool (map_option JBool v) = v"
  by (cases v) (simp_all add: readBool_def)

lemma readNumber_Fin: "readNumber (map_option (\<lambda>r. JNumber (Fin r)) v) = v"
  by (cases v) (simp_all add: readNumber_def)

lemma read_required:
  "readString (Some (JString s)) = Some s"
  "readNumber (Some (JNumber (Fin r))) = Some r"
  "readBool (Some (JBool b)) = Some b"
  by (simp_all add: readString_def readNumber_def readBool_def)

lemma fromJs_toJs: "fromJs (toJs n) = n"
  unfolding fromJs_def toJs_required toJs_optional
  by (simp add: readType_typeName readAlign_alignName readWeight_weightValue readString_JString
        readBool_JBool readNumber_Fin orElse_def read_required)

lemma json_clone_id: "json_clone ns = ns"
  by (simp add: json_clone_def json_props_toJs fromJs_toJs map_idI)

lemma json_idempotent:
  "(\<forall>w. json_value v = Some w \<longrightarrow> json_value w = Some w)"
  "json_elems (json_elems vs) = json_elems vs"
  "json_props (json_props kvs) = json_props kvs"
proof (induction v and vs and kvs rule: json_value_json_elems_json_props.induct)
  case (4 n)
  then show ?case by (cases n) auto
next
  case (9 v vs)
  then show ?case by (cases "json_value v") auto
next
  case (11 k v kvs)
  then show ?case by (cases "json_value v") auto
qed auto

subsection \<open>History\<close>

lemmas store_defs = addNode_def updateNode_def deleteNode_def deleteSelectedNodes_def
  selectNode_def selectNodes_def clearSelection_def saveHistory_def undo_def redo_def
  js_slice0_def js_index_def json_clone_id initialStore_def Let_def

lemma saveHistory_nodes [simp]: "nodes (saveHistory now s) = nodes s"
  by (simp add: saveHistory_def Let_def)

lemma saveHistory_selectedNodeIds [simp]: "selectedNodeIds (saveHistory now s) = selectedNodeIds s"
  by (simp add: saveHistory_def Let_def)

lemma saveHistory_canvasMode [simp]: "canvasMode (saveHistory now s) = canvasMode s"
  by (simp add: saveHistory_def Let_def)

lemma saveHistory_index:
  "historyIndex (saveHistory now s) = int (length (history (saveHistory now s))) - 1"
  by (simp add: saveHistory_def Let_def)

lemma saveHistory_nonempty: "history (saveHistory now s) \<noteq> []"
  by (auto simp add: saveHistory_def Let_def dest!: arg_cong[where f=length])

lemma length_js_slice0: "length (js_slice0 xs e) \<le> length xs"
  by (simp add: js_slice0_def Let_def)

lemma saveHistory_length:
  "length (history s) \<le> 50 \<Longrightarrow> length (history (saveHistory now s)) \<le> 50"
  using length_js_slice0[of "history s" "historyIndex s + 1"]
  by (simp add: saveHistory_def Let_def)

lemma saveHistory_last:
  "last (history (saveHistory now s)) = \<lparr>h_nodes = nodes s, h_timestamp = now\<rparr>"
  by (cases "js_slice0 (history s) (historyIndex s + 1)")
     (simp_all add: saveHistory_def Let_def json_clone_id)

lemma historyInv_saveHistory: "length (history s) \<le> 50 \<Longrightarrow> historyInv (saveHistory now s)"
  using saveHistory_length[of s now] saveHistory_nonempty[of now s] saveHistory_index[of now s]
  by (simp add: historyInv_def)

lemma duplicateSelected_saves:
  "\<exists>t. duplicateSelected newIds now s = saveHistory now t \<and>
       history t = history s \<and> historyIndex t = historyIndex s"
  unfolding duplicateSelected_def Let_def
  by (rule exI, rule conjI, rule refl) simp

lemma alignNodes_saves:
  assumes "\<not> length (filter (\<lambda>node. n_id node \<in> set (selectedNodeIds s)) (nodes s)) < 2"
  shows "\<exists>t. alignNodes alignment now s = saveHistory now t \<and>
       history t = history s \<and> historyIndex t = historyIndex s"
  unfolding alignNodes_def Let_def if_not_P[OF assms]
  by (rule exI, rule conjI, rule refl) simp

text \<open>Every capturing action ends in \<^const>\<open>saveHistory\<close> on a store with the same
  history fields.\<close>

lemma captures_saveHistory:
  assumes "capturesHistory a s"
  shows "\<exists>now t. step a s = Inr (saveHistory now t) \<and>
           history t = history s \<and> historyIndex t = historyIndex s"
proof (cases a)
  case (AddNode node newId now)
  then show ?thesis
    by (intro exI[of _ now]
          exI[of _ "s\<lparr>nodes := nodes s @ [node\<lparr>n_id := newId, n_zIndex := int (length (nodes s))\<rparr>]\<rparr>"])
       (simp add: addNode_def Let_def)
next
  case (UpdateNode i updates now)
  then show ?thesis
    by (intro exI[of _ now]
          exI[of _ "s\<lparr>nodes := map (\<lambda>node. if n_id node = i then applyUpdates node updates else node) (nodes s)\<rparr>"])
       (simp add: updateNode_def)
next
  case (DeleteNode i now)
  then show ?thesis
    by (intro exI[of _ now]
          exI[of _ "s\<lparr>nodes := filter (\<lambda>node. n_id node \<noteq> i) (nodes s),
                     selectedNodeIds := filter (\<lambda>nid. nid \<noteq> i) (selectedNodeIds s)\<rparr>"])
       (simp add: deleteNode_def)
next
  case (DeleteSelectedNodes now)
  then show ?thesis
    by (intro exI[of _ now]
          exI[of _ "s\<lparr>nodes := filter (\<lambda>node. n_id node \<notin> set (selectedNodeIds s)) (nodes s),
                     selectedNodeIds := []\<rparr>"])
       (simp add: deleteSelectedNodes_def)
next
  case (DuplicateSelected newIds now)
  then show ?thesis
    using duplicateSelected_saves[of newIds now s] by auto
next
  case (AlignNodes alignment now)
  with assms show ?thesis
    using alignNodes_saves[of s alignment now] by auto
qed (use assms in simp_all)

lemma undo_inv:
  assumes "historyInv s"
  shows "\<exists>s'. undo s = Inr s' \<and> historyInv s'"
proof (cases "historyIndex s > 0")
  case True
  with assms have ne: "history s \<noteq> []" by (auto simp: historyInv_def split: if_splits)
  with assms True have
    "js_index (history s) (historyIndex s - 1) = Some (history s ! nat (historyIndex s - 1))"
    by (simp add: historyInv_def js_index_def)
  with assms True ne show ?thesis
    by (simp add: undo_def Let_def historyInv_def)
next
  case False
  with assms show ?thesis by (simp add: undo_def)
qed

lemma redo_inv:
  assumes "historyInv s"
  shows "\<exists>s'. redo s = Inr s' \<and> historyInv s'"
proof (cases "historyIndex s < int (length (history s)) - 1")
  case True
  with assms have ne: "history s \<noteq> []" by (auto simp: historyInv_def split: if_splits)
  with assms True have
    "js_index (history s) (historyIndex s + 1) = Some (history s ! nat (historyIndex s + 1))"
    by (simp add: historyInv_def js_index_def)
  with assms True ne show ?thesis
    by (simp add: redo_def Let_def historyInv_def)
next
  case False
  with assms show ?thesis by (simp add: redo_def)
qed

lemma step_inv:
  assumes "historyInv s"
  shows "\<exists>s'. step a s = Inr s' \<and> historyInv s'"
proof (cases "capturesHistory a s")
  case True
  from captures_saveHistory[OF True] obtain now t where
    st: "step a s = Inr (saveHistory now t)" and h: "history t = history s" by blast
  from assms h have "length (history t) \<le> 50" by (simp add: historyInv_def)
  then have "historyInv (saveHistory now t)" by (rule historyInv_saveHistory)
  with st show ?thesis by simp
next
  case False
  show ?thesis
  proof (cases a)
    case Undo
    then show ?thesis using undo_inv[OF assms] by simp
  next
    case Redo
    then show ?thesis using redo_inv[OF assms] by simp
  next
    case (AlignNodes alignment now)
    with False assms show ?thesis by (simp add: alignNodes_def Let_def)
  next
    case (SelectNode i multi)
    with assms show ?thesis by (simp add: selectNode_def Let_def historyInv_def)
  next
    case (SelectNodes ids)
    with assms show ?thesis by (simp add: selectNodes_def historyInv_def)
  next
    case ClearSelection
    with assms show ?thesis by (simp add: clearSelection_def historyInv_def)
  qed (use False in simp_all)
qed

lemma run_inv:
  "historyInv s \<Longrightarrow> \<exists>s'. run acts s = Inr s' \<and> historyInv s'"
proof (induction acts arbitrary: s)
  case Nil
  then show ?case by simp
next
  case (Cons a acts)
  from step_inv[OF Cons.prems, of a] obtain s1 where
    s1: "step a s = Inr s1" "historyInv s1" by blast
  from Cons.IH[OF s1(2)] s1(1) show ?case by simp
qed

lemma historyInv_initialStore: "historyInv initialStore"
  by (simp add: historyInv_def initialStore_def)

text \<open>
  C1 (history bound and index invariant). Every sequence of store calls from the fresh
  store runs without an exception and ends in a store whose history has at most 50
  entries and, when it is non-empty, an index within it; and whichever action that
  captures history comes next (addNode, updateNode, deleteNode, deleteSelectedNodes,
  duplicateSelected, or alignNodes on at least two selected nodes), the index is the last
  position of the history right after it.
\<close>

theorem history_bound_and_index:
  "\<exists>s. run acts initialStore = Inr s \<and>
        length (history s) \<le> 50 \<and>
        (history s \<noteq> [] \<longrightarrow> 0 \<le> historyIndex s \<and> historyIndex s < int (length (history s))) \<and>
        (\<forall>a. capturesHistory a s \<longrightarrow>
           (\<exists>s'. step a s = Inr s' \<and> historyIndex s' = int (length (history s')) - 1))"
proof -
  from run_inv[OF historyInv_initialStore, of acts] obtain s where
    s: "run acts initialStore = Inr s" "historyInv s" by blast
  have "\<exists>s'. step a s = Inr s' \<and> historyIndex s' = int (length (history s')) - 1"
    if "capturesHistory a s" for a
    using captures_saveHistory[OF that] saveHistory_index by auto
  with s show ?thesis
    by (auto simp: historyInv_def split: if_splits)
qed

theorem history_bound_and_index_witness:
  "(case run [AddNode (imageNode [] 0 0 50 50) ''a'' 1,
              AddNode (imageNode [] 200 100 80 80) ''b'' 2, Undo] initialStore of
      Inl e \<Rightarrow> False
    | Inr s \<Rightarrow> history s \<noteq> [] \<and> length (history s) \<le> 50 \<and> 0 \<le> historyIndex s \<and>
        historyIndex s < int (length (history s)) \<and>
        capturesHistory (DeleteNode ''a'' 3) s \<and>
        (case step (DeleteNode ''a'' 3) s of
           Inl e \<Rightarrow> False
         | Inr s' \<Rightarrow> historyIndex s' = int (length (history s')) - 1))"
  using history_bound_and_index
    [of "[AddNode (imageNode [] 0 0 50 50) ''a'' 1,
          AddNode (imageNode [] 200 100 80 80) ''b'' 2, Undo]"]
  by (simp add: store_defs)

subsection \<open>The history engine on plain objects\<close>

lemma js_slice0_map: "js_slice0 (map f xs) e = map f (js_slice0 xs e)"
  by (simp add: js_slice0_def Let_def take_map)

lemma js_index_map: "js_index (map f xs) i = map_option f (js_index xs i)"
  by (auto simp: js_index_def nat_less_iff)

lemma map_json_props_toJs: "map (json_props \<circ> toJs) ns = map toJs ns"
  by (simp add: json_props_toJs)

lemma toRawStore_saveHistory: "toRawStore (saveHistory now s) = saveHistoryRaw now (toRawStore s)"
  by (simp add: toRawStore_def saveHistory_def saveHistoryRaw_def Let_def js_slice0_map
        json_clone_id map_json_props_toJs map_tl)

lemma toRawStore_undo: "undoRaw (toRawStore s) = map_sum id toRawStore (undo s)"
  by (simp add: toRawStore_def undo_def undoRaw_def Let_def js_index_map json_clone_id
        map_json_props_toJs split: option.splits)

lemma toRawStore_redo: "redoRaw (toRawStore s) = map_sum id toRawStore (redo s)"
  by (simp add: toRawStore_def redo_def redoRaw_def Let_def js_index_map json_clone_id
        map_json_props_toJs split: option.splits)

lemma saveHistoryRaw_facts:
  "r_nodes (saveHistoryRaw now t) = r_nodes t"
  "r_selectedNodeIds (saveHistoryRaw now t) = r_selectedNodeIds t"
  "r_history (saveHistoryRaw now t) \<noteq> []"
  "r_historyIndex (saveHistoryRaw now t) = int (length (r_history (saveHistoryRaw now t))) - 1"
  "rh_nodes (last (r_history (saveHistoryRaw now t))) = map json_props (r_nodes t)"
proof -
  show "r_nodes (saveHistoryRaw now t) = r_nodes t"
    "r_selectedNodeIds (saveHistoryRaw now t) = r_selectedNodeIds t"
    "r_historyIndex (saveHistoryRaw now t) = int (length (r_history (saveHistoryRaw now t))) - 1"
    by (simp_all add: saveHistoryRaw_def Let_def)
  show "r_history (saveHistoryRaw now t) \<noteq> []"
    by (auto simp add: saveHistoryRaw_def Let_def dest!: arg_cong[where f=length])
  show "rh_nodes (last (r_history (saveHistoryRaw now t))) = map json_props (r_nodes t)"
    by (cases "js_slice0 (r_history t) (r_historyIndex t + 1)")
       (simp_all add: saveHistoryRaw_def Let_def)
qed

text \<open>
  On any objects: after a capture, \<^verbatim>\<open>undo(); redo()\<close> raises nothing and, unless the
  capture was the first, leaves the JSON round trip of the captured nodes.
\<close>

lemma raw_undo_redo:
  "\<exists>s3. undoThenRedoRaw (saveHistoryRaw now t) = Inr s3 \<and>
        r_nodes s3 = (if 0 < r_historyIndex (saveHistoryRaw now t)
                      then map json_props (r_nodes t) else r_nodes t)"
proof -
  define s1 where "s1 = saveHistoryRaw now t"
  define H where "H = r_history s1"
  have ne: "H \<noteq> []" and idx: "r_historyIndex s1 = int (length H) - 1"
    and lst: "rh_nodes (last H) = map json_props (r_nodes t)"
    and nd: "r_nodes s1 = r_nodes t"
    unfolding H_def s1_def by (simp_all add: saveHistoryRaw_facts)
  show ?thesis
  proof (cases "0 < r_historyIndex s1")
    case False
    then have "undoRaw s1 = Inr s1" by (simp add: undoRaw_def)
    moreover from False idx have "redoRaw s1 = Inr s1" by (simp add: redoRaw_def H_def)
    ultimately show ?thesis using False nd by (simp add: undoThenRedoRaw_def s1_def)
  next
    case True
    define s2 where "s2 = s1\<lparr>r_nodes := map json_props (rh_nodes (H ! nat (r_historyIndex s1 - 1))),
                          r_historyIndex := r_historyIndex s1 - 1, r_selectedNodeIds := []\<rparr>"
    from True idx ne have u: "undoRaw s1 = Inr s2"
      by (simp add: undoRaw_def Let_def js_index_def s2_def H_def)
    define s3 where "s3 = s2\<lparr>r_nodes := map json_props (rh_nodes (H ! nat (r_historyIndex s1))),
                          r_historyIndex := r_historyIndex s1, r_selectedNodeIds := []\<rparr>"
    from True idx ne have r: "redoRaw s2 = Inr s3"
      by (simp add: redoRaw_def Let_def js_index_def s2_def s3_def H_def)
    from ne idx have "H ! nat (r_historyIndex s1) = last H"
      by (simp add: last_conv_nth nat_diff_distrib')
    with lst have "r_nodes s3 = map json_props (r_nodes t)"
      by (simp add: s3_def json_idempotent(3))
    with u r True show ?thesis by (simp add: undoThenRedoRaw_def s1_def)
  qed
qed

subsection \<open>Undo and redo after a capture\<close>

text \<open>
  C2 as stated fails twice. The snapshot is a JSON round trip: after a resize to an
  infinite height (\<^verbatim>\<open>updateNode(id, { width, height })\<close> with
  \<^verbatim>\<open>height = width / 0\<close>) the node holds \<^verbatim>\<open>Infinity\<close>, and after
  \<^verbatim>\<open>undo(); redo()\<close> it holds \<^verbatim>\<open>null\<close>. And undo and redo do not always empty
  the selection: after the first capture both are no-ops and the selection stays.
\<close>

theorem undo_redo_counterexample:
  "r_historyIndex (updateNodeRaw ''n1'' infiniteResize 2 rawOneNodeStore) = 1 \<and>
   nodeHeights (updateNodeRaw ''n1'' infiniteResize 2 rawOneNodeStore)
     = [Some (JNumber PosInfinity)] \<and>
   map_sum id nodeHeights (undoThenRedoRaw (updateNodeRaw ''n1'' infiniteResize 2 rawOneNodeStore))
     = Inr [Some JNull] \<and>
   map_sum id r_nodes (undoThenRedoRaw (updateNodeRaw ''n1'' infiniteResize 2 rawOneNodeStore))
     \<noteq> Inr (r_nodes (updateNodeRaw ''n1'' infiniteResize 2 rawOneNodeStore)) \<and>
   selectedNodeIds (addNode (imageNode [] 0 0 50 50) ''a'' 1 (selectNodes [''a''] initialStore))
     = [''a''] \<and>
   map_sum id selectedNodeIds
       (undo (addNode (imageNode [] 0 0 50 50) ''a'' 1 (selectNodes [''a''] initialStore)))
     = Inr [''a''] \<and>
   map_sum id selectedNodeIds
       (undoThenRedo (addNode (imageNode [] 0 0 50 50) ''a'' 1 (selectNodes [''a''] initialStore)))
     = Inr [''a'']"
  by (simp add: updateNodeRaw_def saveHistoryRaw_def undoThenRedoRaw_def undoRaw_def redoRaw_def
        rawOneNodeStore_def infiniteResize_def objectSpread_def toJs_def optField_def
        imageNode_def typeName_def js_slice0_def js_index_def Let_def nodeHeights_def
        undoThenRedo_def store_defs)

text \<open>
  C2, amended (undo/redo round trip). For a store of nodes of the interface, whose
  numbers are finite, and any action M that captures history: \<^verbatim>\<open>undo()\<close> followed by
  \<^verbatim>\<open>redo()\<close> raises nothing and leaves the node collection equal to the one right
  after M. The selection does not come back: when the capture of M was not the first,
  undo and redo each leave the selection empty; when it was the first, both are no-ops
  and leave the store, selection included, as it is.
\<close>

theorem undo_redo_roundtrip:
  assumes "capturesHistory M s"
  shows "\<exists>s1 s2 s3. step M s = Inr s1 \<and> undo s1 = Inr s2 \<and> redo s2 = Inr s3 \<and>
           nodes s3 = nodes s1 \<and>
           (if 0 < historyIndex s1 then selectedNodeIds s2 = [] \<and> selectedNodeIds s3 = []
            else s2 = s1 \<and> s3 = s1)"
proof -
  from captures_saveHistory[OF assms] obtain now t where
    st: "step M s = Inr (saveHistory now t)" by blast
  define s1 where "s1 = saveHistory now t"
  define H where "H = history s1"
  have ne: "H \<noteq> []" unfolding H_def s1_def by (rule saveHistory_nonempty)
  have idx: "historyIndex s1 = int (length H) - 1"
    unfolding H_def s1_def by (rule saveHistory_index)
  have lst: "h_nodes (last H) = nodes s1"
    unfolding H_def s1_def by (simp add: saveHistory_last)
  show ?thesis
  proof (cases "0 < historyIndex s1")
    case False
    then have "undo s1 = Inr s1" by (simp add: undo_def)
    moreover from False idx have "redo s1 = Inr s1" by (simp add: redo_def H_def)
    ultimately show ?thesis using st False by (simp add: s1_def)
  next
    case True
    define s2 where "s2 = s1\<lparr>nodes := json_clone (h_nodes (H ! nat (historyIndex s1 - 1))),
                          historyIndex := historyIndex s1 - 1, selectedNodeIds := []\<rparr>"
    from True idx ne have u: "undo s1 = Inr s2"
      by (simp add: undo_def Let_def js_index_def s2_def H_def)
    define s3 where "s3 = s2\<lparr>nodes := json_clone (h_nodes (H ! nat (historyIndex s1))),
                          historyIndex := historyIndex s1, selectedNodeIds := []\<rparr>"
    from True idx ne have r: "redo s2 = Inr s3"
      by (simp add: redo_def Let_def js_index_def s2_def s3_def H_def)
    from ne idx have "H ! nat (historyIndex s1) = last H"
      by (simp add: last_conv_nth nat_diff_distrib')
    with lst have "nodes s3 = nodes s1" by (simp add: s3_def json_clone_id)
    with st u r True show ?thesis by (simp add: s1_def s2_def s3_def)
  qed
qed

theorem undo_redo_roundtrip_witness:
  "capturesHistory (AddNode (imageNode [] 200 100 80 80) ''b'' 2)
     (addNode (imageNode [] 0 0 50 50) ''a'' 1 initialStore) \<and>
   (case step (AddNode (imageNode [] 200 100 80 80) ''b'' 2)
           (addNode (imageNode [] 0 0 50 50) ''a'' 1 initialStore) of
      Inl e \<Rightarrow> False
    | Inr s1 \<Rightarrow>
       (case undo s1 of
          Inl e \<Rightarrow> False
        | Inr s2 \<Rightarrow>
           (case redo s2 of
              Inl e \<Rightarrow> False
            | Inr s3 \<Rightarrow> 0 < historyIndex s1 \<and> map n_id (nodes s2) = [''a''] \<and>
                 nodes s3 = nodes s1 \<and> map n_id (nodes s3) = [''a'', ''b''] \<and>
                 selectedNodeIds s2 = [] \<and> selectedNodeIds s3 = [])))"
  using undo_redo_roundtrip
    [of "AddNode (imageNode [] 200 100 80 80) ''b'' 2"
        "addNode (imageNode [] 0 0 50 50) ''a'' 1 initialStore"]
  by (simp add: store_defs)

section \<open>Properties of the selection and of calls on a missing id\<close>

lemma step_selectionValid:
  assumes "selectionValid s" "isAddOrDelete a"
  shows "\<exists>s'. step a s = Inr s' \<and> selectionValid s'"
proof (cases a)
  case (AddNode node newId now)
  with assms(1) show ?thesis by (auto simp: selectionValid_def addNode_def Let_def)
next
  case (DeleteNode i now)
  with assms(1) show ?thesis by (auto simp: selectionValid_def deleteNode_def)
next
  case (DeleteSelectedNodes now)
  then show ?thesis by (simp add: selectionValid_def deleteSelectedNodes_def)
qed (use assms(2) in simp_all)

text \<open>
  C7 (selection validity). From a store in which every selected id is the id of a node,
  any sequence of addNode, deleteNode and deleteSelectedNodes calls runs without an
  exception and ends in a store in which every selected id is still the id of a node.
\<close>

theorem selection_validity:
  assumes "selectionValid s" "list_all isAddOrDelete acts"
  shows "\<exists>s'. run acts s = Inr s' \<and> selectionValid s'"
  using assms
proof (induction acts arbitrary: s)
  case Nil
  then show ?case by simp
next
  case (Cons a acts)
  from Cons.prems have "isAddOrDelete a" by simp
  from step_selectionValid[OF Cons.prems(1) this] obtain s1 where
    s1: "step a s = Inr s1" "selectionValid s1" by blast
  from Cons.prems have "list_all isAddOrDelete acts" by simp
  from Cons.IH[OF s1(2) this] s1(1) show ?case by simp
qed

theorem selection_validity_witness:
  "selectionValid twoNodeStore \<and>
   list_all isAddOrDelete [DeleteNode ''A'' 1, AddNode (imageNode [] 5 5 10 10) ''C'' 2] \<and>
   (case run [DeleteNode ''A'' 1, AddNode (imageNode [] 5 5 10 10) ''C'' 2] twoNodeStore of
      Inl e \<Rightarrow> False
    | Inr s' \<Rightarrow> selectionValid s' \<and> selectedNodeIds s' = [''B''] \<and>
        map n_id (nodes s') = [''B'', ''C''])"
  using selection_validity
    [of twoNodeStore "[DeleteNode ''A'' 1, AddNode (imageNode [] 5 5 10 10) ''C'' 2]"]
  by (simp add: store_defs selectionValid_def twoNodeStore_def imageNode_def)

lemma map_unchanged:
  "i \<notin> set (map n_id ns) \<Longrightarrow> map (\<lambda>node. if n_id node = i then f node else node) ns = ns"
  by (induction ns) auto

lemma filter_unchanged:
  "i \<notin> set (map n_id ns) \<Longrightarrow> filter (\<lambda>node. n_id node \<noteq> i) ns = ns"
  by (induction ns) auto

text \<open>
  C8 as stated fails: \<^verbatim>\<open>selectNodes\<close> does not validate its ids, and
  \<^verbatim>\<open>deleteNode\<close> of an id that no node has still filters that id out of the
  selection.
\<close>

theorem missing_id_counterexample:
  "''ghost'' \<notin> set (map n_id (nodes (selectNodes [''ghost''] initialStore))) \<and>
   selectedNodeIds (deleteNode ''ghost'' 0 (selectNodes [''ghost''] initialStore))
     \<noteq> selectedNodeIds (selectNodes [''ghost''] initialStore)"
  by (simp add: store_defs)

text \<open>
  C8, amended (silent no-op on a missing id). For an id that no node has,
  \<^verbatim>\<open>updateNode\<close> raises nothing and is exactly one history capture: nodes and
  selection stay as they are and the new last history entry holds the nodes.
  \<^verbatim>\<open>deleteNode\<close> raises nothing and leaves the nodes as they are; it removes the id
  from the selection, which is therefore unchanged whenever the id was not selected.
\<close>

theorem missing_id_noop:
  assumes "i \<notin> set (map n_id (nodes s))"
  shows "step (UpdateNode i updates now) s = Inr (saveHistory now s) \<and>
         nodes (saveHistory now s) = nodes s \<and>
         selectedNodeIds (saveHistory now s) = selectedNodeIds s \<and>
         last (history (saveHistory now s)) = \<lparr>h_nodes = nodes s, h_timestamp = now\<rparr> \<and>
         (\<exists>s'. step (DeleteNode i now) s = Inr s' \<and> nodes s' = nodes s \<and>
            selectedNodeIds s' = filter (\<lambda>nid. nid \<noteq> i) (selectedNodeIds s) \<and>
            (i \<notin> set (selectedNodeIds s) \<longrightarrow> selectedNodeIds s' = selectedNodeIds s))"
proof -
  have "updateNode i updates now s = saveHistory now s"
    using map_unchanged[OF assms] by (simp add: updateNode_def)
  moreover have "nodes (deleteNode i now s) = nodes s"
    using filter_unchanged[OF assms] by (simp add: deleteNode_def)
  moreover have "selectedNodeIds (deleteNode i now s) = filter (\<lambda>nid. nid \<noteq> i) (selectedNodeIds s)"
    by (simp add: deleteNode_def)
  moreover have "i \<notin> set (selectedNodeIds s) \<Longrightarrow>
      filter (\<lambda>nid. nid \<noteq> i) (selectedNodeIds s) = selectedNodeIds s"
    by (auto simp: filter_id_conv)
  ultimately show ?thesis by (simp add: saveHistory_last)
qed

theorem missing_id_noop_witness:
  "''Z'' \<notin> set (map n_id (nodes twoNodeStore)) \<and>
   ''Z'' \<notin> set (selectedNodeIds twoNodeStore) \<and>
   step (UpdateNode ''Z'' (moveTo 5 5) 7) twoNodeStore = Inr (saveHistory 7 twoNodeStore) \<and>
   nodes (saveHistory 7 twoNodeStore) = nodes twoNodeStore \<and>
   selectedNodeIds (saveHistory 7 twoNodeStore) = [''A'', ''B''] \<and>
   length (history (saveHistory 7 twoNodeStore)) = 1 \<and>
   (case step (DeleteNode ''Z'' 7) twoNodeStore of
      Inl e \<Rightarrow> False
    | Inr s' \<Rightarrow> nodes s' = nodes twoNodeStore \<and> selectedNodeIds s' = [''A'', ''B''])"
  using missing_id_noop [of "''Z''" twoNodeStore "moveTo 5 5" 7]
  by (simp add: store_defs twoNodeStore_def imageNode_def)

section \<open>Properties of duplicateSelected\<close>

text \<open>What one history capture does to a history that satisfies the invariant.\<close>

lemma saveHistory_history:
  assumes "historyInv t"
  shows "history (saveHistory now t) =
           (if historyIndex t < 49
            then take (nat (historyIndex t + 1)) (history t) @ [\<lparr>h_nodes = nodes t, h_timestamp = now\<rparr>]
            else tl (history t) @ [\<lparr>h_nodes = nodes t, h_timestamp = now\<rparr>])"
proof -
  from assms have b: "- 1 \<le> historyIndex t" "historyIndex t + 1 \<le> int (length (history t))"
    "length (history t) \<le> 50"
    by (auto simp: historyInv_def split: if_splits)
  then have sl: "js_slice0 (history t) (historyIndex t + 1) = take (nat (historyIndex t + 1)) (history t)"
    by (simp add: js_slice0_def Let_def min_def)
  show ?thesis
  proof (cases "historyIndex t < 49")
    case True
    with b have "nat (historyIndex t + 1) < 50" by simp
    with True sl show ?thesis by (simp add: saveHistory_def Let_def json_clone_id)
  next
    case False
    with b have l: "length (history t) = 50" "nat (historyIndex t + 1) = 50" by simp_all
    then have "take (nat (historyIndex t + 1)) (history t) = history t" by simp
    moreover from l have "history t \<noteq> []" by auto
    ultimately show ?thesis using False sl l
      by (simp add: saveHistory_def Let_def json_clone_id)
  qed
qed

lemma saveHistory_historyIndex:
  assumes "historyInv t"
  shows "historyIndex (saveHistory now t) =
           (if historyIndex t < 49 then historyIndex t + 1 else historyIndex t)"
proof -
  from assms have b: "- 1 \<le> historyIndex t" "historyIndex t + 1 \<le> int (length (history t))"
    "length (history t) \<le> 50"
    by (auto simp: historyInv_def split: if_splits)
  show ?thesis
    unfolding saveHistory_index saveHistory_history[OF assms]
    using b by (auto simp: min_def)
qed

lemma fullHistoryStore_reachable:
  "run (replicate 50 (DeleteSelectedNodes 0)) initialStore = Inr fullHistoryStore"
  by code_simp

lemma filter_none_selected:
  assumes "\<forall>i \<in> set sel. i \<notin> set (map n_id ns)"
  shows "filter (\<lambda>node. n_id node \<in> set sel) ns = []"
  using assms by (auto simp: filter_empty_conv)

text \<open>
  C6 (duplicate). With \<^verbatim>\<open>nanoid()\<close> returning ids that are new to the document and
  pairwise different, \<^verbatim>\<open>duplicateSelected()\<close> appends, after all existing nodes and
  in their order, one copy of every selected existing node: same fields, the fresh id,
  x and y moved by exactly 20, zIndex counting on from the node count. The selection
  becomes exactly the new ids, which are pairwise different and different from every
  existing id, and the history receives exactly one new entry, holding the whole new
  node collection (at capacity the oldest entry leaves).
\<close>

theorem duplicate_selected:
  assumes "historyInv s"
      and "\<forall>k < length (filter (\<lambda>node. n_id node \<in> set (selectedNodeIds s)) (nodes s)).
             newIds k \<notin> set (map n_id (nodes s))"
      and "inj_on newIds {..<length (filter (\<lambda>node. n_id node \<in> set (selectedNodeIds s)) (nodes s))}"
  shows "let sel = filter (\<lambda>node. n_id node \<in> set (selectedNodeIds s)) (nodes s);
             copies = map (\<lambda>k. (sel ! k)\<lparr>n_id := newIds k,
                                        n_x := n_x (sel ! k) + 20,
                                        n_y := n_y (sel ! k) + 20,
                                        n_zIndex := int (length (nodes s)) + int k\<rparr>)
                          [0..<length sel];
             s' = duplicateSelected newIds now s
         in nodes s' = nodes s @ copies \<and>
            selectedNodeIds s' = map newIds [0..<length sel] \<and>
            distinct (selectedNodeIds s') \<and>
            set (selectedNodeIds s') \<inter> set (map n_id (nodes s)) = {} \<and>
            history s' =
              (if historyIndex s < 49
               then take (nat (historyIndex s + 1)) (history s) @ [\<lparr>h_nodes = nodes s', h_timestamp = now\<rparr>]
               else tl (history s) @ [\<lparr>h_nodes = nodes s', h_timestamp = now\<rparr>])"
proof -
  define sel where "sel = filter (\<lambda>node. n_id node \<in> set (selectedNodeIds s)) (nodes s)"
  define copies where "copies = map (\<lambda>k. (sel ! k)\<lparr>n_id := newIds k,
                                        n_x := n_x (sel ! k) + 20,
                                        n_y := n_y (sel ! k) + 20,
                                        n_zIndex := int (length (nodes s)) + int k\<rparr>)
                          [0..<length sel]"
  have cp: "map (\<lambda>(k, node). node\<lparr>n_id := newIds k, n_x := n_x node + 20, n_y := n_y node + 20,
                                 n_zIndex := int (length (nodes s)) + int k\<rparr>) (enumerate 0 sel) = copies"
    unfolding copies_def by (rule nth_equalityI) (simp_all add: nth_enumerate_eq)
  have ids: "map n_id copies = map newIds [0..<length sel]"
    unfolding copies_def by simp
  have eq: "duplicateSelected newIds now s =
              saveHistory now (s\<lparr>nodes := nodes s @ copies, selectedNodeIds := map n_id copies\<rparr>)"
    unfolding duplicateSelected_def Let_def sel_def[symmetric] cp ..
  have inv: "historyInv (s\<lparr>nodes := nodes s @ copies, selectedNodeIds := map n_id copies\<rparr>)"
    using assms(1) by (simp add: historyInv_def)
  have d: "distinct (map newIds [0..<length sel])"
    using assms(3) unfolding sel_def[symmetric]
    by (simp add: distinct_map atLeast0LessThan)
  have f: "set (map newIds [0..<length sel]) \<inter> set (map n_id (nodes s)) = {}"
    using assms(2) unfolding sel_def[symmetric] by auto
  show ?thesis
    unfolding Let_def sel_def[symmetric] copies_def[symmetric] eq
    using saveHistory_history[OF inv, of now] d f by (simp add: ids)
qed

theorem duplicate_selected_witness:
  "historyInv oneNodeStore \<and>
   sampleIds 0 \<notin> set (map n_id (nodes oneNodeStore)) \<and>
   inj_on sampleIds {..<length (filter (\<lambda>node. n_id node \<in> set (selectedNodeIds oneNodeStore)) (nodes oneNodeStore))} \<and>
   nodes (duplicateSelected sampleIds 5 oneNodeStore) =
     [imageNode ''n1'' 10 10 40 40, (imageNode ''n'' 30 30 40 40)\<lparr>n_zIndex := 1\<rparr>] \<and>
   selectedNodeIds (duplicateSelected sampleIds 5 oneNodeStore) = [''n''] \<and>
   ''n'' \<noteq> ''n1'' \<and>
   history (duplicateSelected sampleIds 5 oneNodeStore) =
     [\<lparr>h_nodes = [imageNode ''n1'' 10 10 40 40, (imageNode ''n'' 30 30 40 40)\<lparr>n_zIndex := 1\<rparr>],
       h_timestamp = 5\<rparr>]"
  using duplicate_selected [of oneNodeStore sampleIds 5]
  by (simp add: store_defs duplicateSelected_def historyInv_def oneNodeStore_def imageNode_def
        sampleIds_def lessThan_Suc)

text \<open>
  C10 as stated fails at capacity: on the store reached by fifty captures (lemma
  \<open>fullHistoryStore_reachable\<close>) with nothing selected, \<^verbatim>\<open>duplicateSelected()\<close>
  leaves \<^verbatim>\<open>historyIndex\<close> at 49; it does not advance.
\<close>

theorem noop_duplicate_counterexample:
  "selectedNodeIds fullHistoryStore = [] \<and>
   historyIndex fullHistoryStore = 49 \<and>
   historyIndex (duplicateSelected sampleIds 1 fullHistoryStore) = 49"
  by (simp add: duplicateSelected_def store_defs fullHistoryStore_def)

text \<open>
  C10, amended (duplicate with nothing to duplicate). When no selected id is the id of
  a node (in particular when the selection is empty), \<^verbatim>\<open>duplicateSelected()\<close>
  leaves the node collection unchanged, leaves the selection empty, and still appends
  one history entry holding the unchanged nodes after the entries up to the current
  index. While fewer than 50 entries result, \<^verbatim>\<open>historyIndex\<close> advances by one; with
  the index at 49 the oldest entry is evicted instead and the index stays 49.
\<close>

theorem noop_duplicate:
  assumes "\<forall>i \<in> set (selectedNodeIds s). i \<notin> set (map n_id (nodes s))"
      and "historyInv s"
  shows "nodes (duplicateSelected newIds now s) = nodes s \<and>
         selectedNodeIds (duplicateSelected newIds now s) = [] \<and>
         history (duplicateSelected newIds now s) =
           (if historyIndex s < 49
            then take (nat (historyIndex s + 1)) (history s) @ [\<lparr>h_nodes = nodes s, h_timestamp = now\<rparr>]
            else tl (history s) @ [\<lparr>h_nodes = nodes s, h_timestamp = now\<rparr>]) \<and>
         historyIndex (duplicateSelected newIds now s) =
           (if historyIndex s < 49 then historyIndex s + 1 else historyIndex s)"
proof -
  have eq: "duplicateSelected newIds now s = saveHistory now (s\<lparr>selectedNodeIds := []\<rparr>)"
    using filter_none_selected[OF assms(1)]
    by (simp add: duplicateSelected_def Let_def enumerate_eq_zip)
  have inv: "historyInv (s\<lparr>selectedNodeIds := []\<rparr>)"
    using assms(2) by (simp add: historyInv_def)
  show ?thesis
    unfolding eq using saveHistory_history[OF inv, of now] saveHistory_historyIndex[OF inv, of now]
    by simp
qed

theorem noop_duplicate_witness:
  "selectedNodeIds (selectNodes [''ghost''] (saveHistory 0 twoNodeStore)) = [''ghost''] \<and>
   ''ghost'' \<notin> set (map n_id (nodes (selectNodes [''ghost''] (saveHistory 0 twoNodeStore)))) \<and>
   historyInv (selectNodes [''ghost''] (saveHistory 0 twoNodeStore)) \<and>
   historyIndex (selectNodes [''ghost''] (saveHistory 0 twoNodeStore)) = 0 \<and>
   nodes (duplicateSelected sampleIds 1 (selectNodes [''ghost''] (saveHistory 0 twoNodeStore)))
     = nodes twoNodeStore \<and>
   selectedNodeIds (duplicateSelected sampleIds 1 (selectNodes [''ghost''] (saveHistory 0 twoNodeStore))) = [] \<and>
   history (duplicateSelected sampleIds 1 (selectNodes [''ghost''] (saveHistory 0 twoNodeStore)))
     = [\<lparr>h_nodes = nodes twoNodeStore, h_timestamp = 0\<rparr>,
        \<lparr>h_nodes = nodes twoNodeStore, h_timestamp = 1\<rparr>] \<and>
   historyIndex (duplicateSelected sampleIds 1 (selectNodes [''ghost''] (saveHistory 0 twoNodeStore))) = 1"
  using noop_duplicate [of "selectNodes [''ghost''] (saveHistory 0 twoNodeStore)" sampleIds 1]
  by (simp add: store_defs historyInv_def twoNodeStore_def imageNode_def)

section \<open>Properties of alignNodes\<close>

declare ceilSqrtFrom.simps [simp del]

lemma findIndex_None: "findIndex p xs = None \<longleftrightarrow> (\<forall>a \<in> set xs. \<not> p a)"
  by (induction xs) (auto split: option.splits)

lemma findIndex_Some: "findIndex p xs = Some k \<Longrightarrow> k < length xs \<and> p (xs ! k)"
  by (induction xs arbitrary: k) (auto split: option.splits if_splits)

lemma findIndex_distinct:
  assumes "distinct (map f xs)" "k < length xs"
  shows "findIndex (\<lambda>m. f m = f (xs ! k)) xs = Some k"
  using assms
proof (induction xs arbitrary: k)
  case Nil
  then show ?case by simp
next
  case (Cons a xs)
  show ?case
  proof (cases k)
    case 0
    then show ?thesis by simp
  next
    case (Suc j)
    with Cons.prems have j: "j < length xs" "distinct (map f xs)" by simp_all
    from Cons.prems Suc j have "f a \<noteq> f (xs ! j)" by (auto simp: image_iff)
    with Cons.IH[OF j(2) j(1)] Suc show ?thesis by simp
  qed
qed

lemma assignAt_findIndex:
  assumes "distinct (map n_id upd)"
  shows "assignAt (findIndex (\<lambda>n. n_id n = i) upd) f upd =
         map (\<lambda>n. if n_id n = i then f n else n) upd"
  using assms
proof (induction upd)
  case Nil
  then show ?case by (simp add: assignAt_def)
next
  case (Cons a upd)
  show ?case
  proof (cases "n_id a = i")
    case True
    with Cons.prems have "\<forall>n \<in> set upd. n_id n \<noteq> i" by (auto simp: image_iff)
    then have "map (\<lambda>n. if n_id n = i then f n else n) upd = upd"
      by (simp add: map_idI)
    with True show ?thesis by (simp add: assignAt_def)
  next
    case False
    from Cons have IH: "assignAt (findIndex (\<lambda>n. n_id n = i) upd) f upd =
         map (\<lambda>n. if n_id n = i then f n else n) upd" by simp
    with False show ?thesis
      by (cases "findIndex (\<lambda>n. n_id n = i) upd") (simp_all add: assignAt_def)
  qed
qed

lemma rowLoop_map:
  assumes "distinct (map n_id upd)" "distinct (map n_id todo)"
  shows "rowLoop todo cx avg upd =
         map (\<lambda>n. case findIndex (\<lambda>m. n_id m = n_id n) todo of
                     None \<Rightarrow> n
                   | Some k \<Rightarrow> n\<lparr>n_x := cx + (\<Sum>j<k. n_width (todo ! j) + GAP), n_y := avg\<rparr>) upd"
  using assms
proof (induction todo arbitrary: cx upd)
  case Nil
  then show ?case by (simp add: map_idI)
next
  case (Cons node rest)
  define g :: "CanvasNode \<Rightarrow> CanvasNode" where "g = (\<lambda>n. if n_id n = n_id node then n\<lparr>n_x := cx, n_y := avg\<rparr> else n)"
  have gid: "n_id (g n) = n_id n" for n by (simp add: g_def)
  then have ids: "map n_id (map g upd) = map n_id upd" by simp
  from Cons.prems have dr: "distinct (map n_id rest)" and nr: "\<forall>m \<in> set rest. n_id m \<noteq> n_id node"
    by (auto simp: image_iff)
  have step: "rowLoop (node # rest) cx avg upd = rowLoop rest (cx + (n_width node + GAP)) avg (map g upd)"
    using assignAt_findIndex[OF Cons.prems(1), of "n_id node"] by (simp add: g_def)
  have none: "findIndex (\<lambda>m. n_id m = n_id node) rest = None"
    using nr by (simp add: findIndex_None)
  show ?case
    unfolding step Cons.IH[OF _ dr, of "map g upd", unfolded ids, OF Cons.prems(1)]
    using none
    by (auto simp: g_def sum.lessThan_Suc_shift algebra_simps simp del: sum.lessThan_Suc
          split: option.splits)
qed

lemma foldl_add_sum_list: "foldl (\<lambda>sum n. sum + f n) a xs = a + sum_list (map f xs)"
  for a :: real
  by (induction xs arbitrary: a) (simp_all add: algebra_simps)

lemma sum_list_insort_key: "sum_list (map f (insort_key g x xs)) = f x + sum_list (map f xs)"
  for f :: "'a \<Rightarrow> real"
  by (induction xs) (simp_all add: algebra_simps)

lemma sum_list_sort_key: "sum_list (map f (sort_key g xs)) = sum_list (map f xs)"
  for f :: "'a \<Rightarrow> real"
  by (induction xs) (simp_all add: sum_list_insort_key)

lemma distinct_ids_sort_key:
  assumes "distinct (map n_id xs)"
  shows "distinct (map n_id (sort_key g xs))"
  using assms by (simp add: distinct_map)

lemma sorted_hd_Min:
  assumes "sorted (map f xs)" "xs \<noteq> []"
  shows "f (xs ! 0) = Min (f ` set xs)"
proof -
  from assms obtain a as where xs: "xs = a # as" by (cases xs) auto
  with assms(1) have "\<forall>y \<in> f ` set xs. f a \<le> y" by auto
  then have "Min (f ` set xs) = f a"
    by (intro Min_eqI) (auto simp: xs)
  then show ?thesis by (simp add: xs)
qed


text \<open>
  C5 (row alignment). With unique node ids and at least two selected existing nodes,
  \<^verbatim>\<open>alignNodes('row')\<close> takes the selected nodes in ascending order of their
  current x, gives every one of them the y that is the arithmetic mean of the selected
  nodes' original y, and the x of a cursor that starts at the leftmost selected x and
  advances by the width of each placed node plus 20. All other fields, widths and
  heights included, and all unselected nodes stay as they are. The witness is the
  example A(0,0,50,50), B(200,100,80,80): both get y = 50 and B gets x = 70.
\<close>

theorem row_alignment:
  assumes "distinct (map n_id (nodes s))"
      and "2 \<le> length (filter (\<lambda>node. n_id node \<in> set (selectedNodeIds s)) (nodes s))"
  shows "let sel = filter (\<lambda>node. n_id node \<in> set (selectedNodeIds s)) (nodes s);
             ordered = sort_key n_x sel;
             avgY = sum_list (map n_y sel) / real (length sel);
             s' = alignNodes A_row now s
         in sorted (map n_x ordered) \<and> set ordered = set sel \<and> length ordered = length sel \<and>
            n_x (ordered ! 0) = Min (n_x ` set sel) \<and>
            length (nodes s') = length (nodes s) \<and>
            (\<forall>p < length (nodes s).
               (n_id (nodes s ! p) \<notin> set (selectedNodeIds s) \<longrightarrow> nodes s' ! p = nodes s ! p) \<and>
               (\<forall>k < length ordered. nodes s ! p = ordered ! k \<longrightarrow>
                  nodes s' ! p =
                    (ordered ! k)\<lparr>n_x := n_x (ordered ! 0) + (\<Sum>j<k. n_width (ordered ! j) + 20),
                                  n_y := avgY\<rparr>))"
proof -
  define sel where "sel = filter (\<lambda>node. n_id node \<in> set (selectedNodeIds s)) (nodes s)"
  define ordered where "ordered = sort_key n_x sel"
  define avgY where "avgY = sum_list (map n_y sel) / real (length sel)"
  define place :: "CanvasNode \<Rightarrow> CanvasNode" where "place = (\<lambda>n. case findIndex (\<lambda>m. n_id m = n_id n) ordered of
                     None \<Rightarrow> n
                   | Some k \<Rightarrow> n\<lparr>n_x := n_x (ordered ! 0) + (\<Sum>j<k. n_width (ordered ! j) + GAP), n_y := avgY\<rparr>)"
  from assms(2) have len: "2 \<le> length sel" by (simp add: sel_def)
  have lo: "length ordered = length sel" by (simp add: ordered_def)
  with len have ne: "ordered \<noteq> []" by auto
  have so: "set ordered = set sel" by (simp add: ordered_def)
  have srt: "sorted (map n_x ordered)" by (simp add: ordered_def)
  have dsel: "distinct (map n_id sel)"
    unfolding sel_def using assms(1) by (rule distinct_map_filter)
  then have dord: "distinct (map n_id ordered)"
    unfolding ordered_def by (rule distinct_ids_sort_key)
  have avg: "foldl (\<lambda>sum n. sum + n_y n) 0 ordered / real (length ordered) = avgY"
    by (simp add: foldl_add_sum_list avgY_def lo) (simp add: ordered_def sum_list_sort_key)
  have hd0: "hd ordered = ordered ! 0" using ne by (simp add: hd_conv_nth)
  have loop: "rowLoop ordered (n_x (hd ordered)) avgY (nodes s) = map place (nodes s)"
    unfolding place_def hd0 by (rule rowLoop_map[OF assms(1) dord])
  have eq: "alignNodes A_row now s = saveHistory now (s\<lparr>nodes := map place (nodes s)\<rparr>)"
    using len unfolding alignNodes_def Let_def sel_def[symmetric]
    by (simp add: ordered_def[symmetric] avg loop)
  have unsel: "place n = n" if "n_id n \<notin> set (selectedNodeIds s)" for n
  proof -
    have "\<forall>m \<in> set ordered. n_id m \<noteq> n_id n"
      using that unfolding so sel_def by auto
    then have "findIndex (\<lambda>m. n_id m = n_id n) ordered = None"
      by (simp add: findIndex_None)
    then show ?thesis by (simp add: place_def)
  qed
  have selk: "place (ordered ! k) =
        (ordered ! k)\<lparr>n_x := n_x (ordered ! 0) + (\<Sum>j<k. n_width (ordered ! j) + 20), n_y := avgY\<rparr>"
    if "k < length ordered" for k
    using findIndex_distinct[OF dord that] by (simp add: place_def GAP_def)
  have mn: "n_x (ordered ! 0) = Min (n_x ` set sel)"
    using sorted_hd_Min[OF srt ne] by (simp add: so)
  show ?thesis
    unfolding Let_def sel_def[symmetric] ordered_def[symmetric] avgY_def[symmetric] eq
    using srt so lo mn unsel selk by simp
qed

theorem row_alignment_witness:
  "distinct (map n_id (nodes twoNodeStore)) \<and>
   2 \<le> length (filter (\<lambda>node. n_id node \<in> set (selectedNodeIds twoNodeStore)) (nodes twoNodeStore)) \<and>
   nodes (alignNodes A_row 9 twoNodeStore) =
     [imageNode ''A'' 0 50 50 50, imageNode ''B'' 70 50 80 80]"
  using row_alignment [of twoNodeStore 9]
  by (simp add: alignNodes_def store_defs twoNodeStore_def imageNode_def assignAt_def GAP_def)

lemma gridLoop_map:
  assumes "distinct (map n_id upd)" "distinct (map n_id todo)"
  shows "gridLoop todo index numCols maxWidth maxHeight startX startY upd =
         map (\<lambda>n. case findIndex (\<lambda>m. n_id m = n_id n) todo of
                     None \<Rightarrow> n
                   | Some k \<Rightarrow>
                       n\<lparr>n_x := startX + real ((index + k) mod numCols) * (maxWidth + GAP)
                                  + (maxWidth - n_width (todo ! k)) / 2,
                         n_y := startY + real ((index + k) div numCols) * (maxHeight + GAP)
                                  + (maxHeight - n_height (todo ! k)) / 2\<rparr>) upd"
  using assms
proof (induction todo arbitrary: index upd)
  case Nil
  then show ?case by (simp add: map_idI)
next
  case (Cons node rest)
  define g :: "CanvasNode \<Rightarrow> CanvasNode" where
    "g = (\<lambda>n. if n_id n = n_id node
              then n\<lparr>n_x := startX + real (index mod numCols) * (maxWidth + GAP)
                              + (maxWidth - n_width node) / 2,
                     n_y := startY + real (index div numCols) * (maxHeight + GAP)
                              + (maxHeight - n_height node) / 2\<rparr>
              else n)"
  have gid: "n_id (g n) = n_id n" for n by (simp add: g_def)
  then have ids: "map n_id (map g upd) = map n_id upd" by simp
  from Cons.prems have dr: "distinct (map n_id rest)"
    and nr: "\<forall>m \<in> set rest. n_id m \<noteq> n_id node"
    by (auto simp: image_iff)
  have step: "gridLoop (node # rest) index numCols maxWidth maxHeight startX startY upd =
              gridLoop rest (Suc index) numCols maxWidth maxHeight startX startY (map g upd)"
    using assignAt_findIndex[OF Cons.prems(1), of "n_id node"] by (simp add: g_def Let_def)
  have none: "findIndex (\<lambda>m. n_id m = n_id node) rest = None"
    using nr by (simp add: findIndex_None)
  show ?case
    unfolding step Cons.IH[OF _ dr, of "map g upd", unfolded ids, OF Cons.prems(1)]
    using none
    by (auto simp: g_def split: option.splits)
qed

lemma ceilSqrtFrom_spec:
  "n \<le> ceilSqrtFrom k n * ceilSqrtFrom k n \<and> k \<le> ceilSqrtFrom k n \<and>
   (\<forall>j. k \<le> j \<and> j < ceilSqrtFrom k n \<longrightarrow> j * j < n)"
proof (induction k n rule: ceilSqrtFrom.induct)
  case (1 k n)
  show ?case
  proof (cases "n \<le> k * k")
    case True
    then show ?thesis by (subst (1 2 3 4) ceilSqrtFrom.simps) simp
  next
    case False
    from 1[OF False] have IH: "n \<le> ceilSqrtFrom (Suc k) n * ceilSqrtFrom (Suc k) n"
      "Suc k \<le> ceilSqrtFrom (Suc k) n"
      "\<And>j. Suc k \<le> j \<Longrightarrow> j < ceilSqrtFrom (Suc k) n \<Longrightarrow> j * j < n"
      by auto
    have e: "ceilSqrtFrom k n = ceilSqrtFrom (Suc k) n"
      using False by (subst ceilSqrtFrom.simps) simp
    have "j * j < n" if "k \<le> j" "j < ceilSqrtFrom (Suc k) n" for j
    proof (cases "j = k")
      case True
      with False show ?thesis by simp
    next
      case False
      with that have "Suc k \<le> j" by simp
      then show ?thesis using that(2) by (rule IH(3))
    qed
    with IH(1,2) show ?thesis unfolding e by auto
  qed
qed

lemma ceilSqrt_eq: "ceilSqrt n = nat \<lceil>sqrt (real n)\<rceil>"
proof -
  define r where "r = ceilSqrt n"
  from ceilSqrtFrom_spec[of n 0] have up: "n \<le> r * r" and low: "\<And>j. j < r \<Longrightarrow> j * j < n"
    by (auto simp: r_def ceilSqrt_def)
  from up have "real n \<le> real r * real r"
    by (metis of_nat_le_iff of_nat_mult)
  then have a: "sqrt (real n) \<le> real r"
    by (intro real_le_lsqrt) (simp_all add: power2_eq_square)
  have b: "real r - 1 < sqrt (real n)"
  proof (cases r)
    case 0
    then have "real r - 1 < 0" by simp
    also have "0 \<le> sqrt (real n)" by simp
    finally show ?thesis .
  next
    case (Suc q)
    from low[of q] Suc have "q * q < n" by simp
    then have "real q * real q < real n"
      by (metis of_nat_less_iff of_nat_mult)
    then have "real q < sqrt (real n)"
      by (intro real_less_rsqrt) (simp add: power2_eq_square)
    then show ?thesis using Suc by simp
  qed
  have "\<lceil>sqrt (real n)\<rceil> = int r"
    using a b by (intro ceiling_unique) simp_all
  then show ?thesis by (simp add: r_def)
qed

lemma maxOf_Max: "vs \<noteq> [] \<Longrightarrow> maxOf vs = Max (set vs)"
  by (cases vs) (simp_all add: maxOf_def Max.set_eq_fold[symmetric])

lemma ceilSqrt_2: "ceilSqrt (Suc (Suc 0)) = 2"
  by (simp add: ceilSqrt_def ceilSqrtFrom.simps)

lemma ceilSqrt_4: "ceilSqrt (Suc (Suc (Suc (Suc 0)))) = 2"
  by (simp add: ceilSqrt_def ceilSqrtFrom.simps)

text \<open>
  C3 as stated fails: the anchor and the indices follow the order in which the selected
  nodes appear in the node collection, not the order of the selection. With P before Q
  in the collection and the selection Q, P, the rule read in selection order anchors the
  grid at Q (300, 300) and sends P to (420, 300); the code anchors at P and sends Q to
  (120, 0).
\<close>

theorem grid_selection_order_counterexample:
  "map n_id (selectionOrder reversedSelectionStore) = [''Q'', ''P''] \<and>
   gridBySelectionOrder reversedSelectionStore 0 = (300, 300) \<and>
   gridBySelectionOrder reversedSelectionStore 1 = (420, 300) \<and>
   nodes (alignNodes A_grid 0 reversedSelectionStore) =
     [imageNode ''P'' 0 0 100 100, imageNode ''Q'' 120 0 100 100] \<and>
   (n_x (nodes (alignNodes A_grid 0 reversedSelectionStore) ! 1),
    n_y (nodes (alignNodes A_grid 0 reversedSelectionStore) ! 1))
     \<noteq> gridBySelectionOrder reversedSelectionStore 0"
  by (simp add: selectionOrder_def gridBySelectionOrder_def reversedSelectionStore_def
        alignNodes_def store_defs imageNode_def ceilSqrt_2 maxOf_def assignAt_def GAP_def)

text \<open>
  C3, amended (grid arrangement). With unique node ids and \<open>n \<ge> 2\<close> selected existing
  nodes, taken in the order in which they appear in the node collection,
  \<^verbatim>\<open>alignNodes('grid')\<close> uses \<open>numCols = \<lceil>sqrt n\<rceil>\<close>, the cell size (max width,
  max height) of the selected nodes and the position of the first of them as anchor,
  and moves the \<open>k\<close>-th to
  \<open>x = startX + (k mod numCols) * (cellW + 20) + (cellW - width) / 2\<close> and
  \<open>y = startY + (k div numCols) * (cellH + 20) + (cellH - height) / 2\<close>. Sizes and
  all other fields, and all unselected nodes, stay as they are.
\<close>

theorem grid_arrangement:
  assumes "distinct (map n_id (nodes s))"
      and "2 \<le> length (filter (\<lambda>node. n_id node \<in> set (selectedNodeIds s)) (nodes s))"
  shows "let sel = filter (\<lambda>node. n_id node \<in> set (selectedNodeIds s)) (nodes s);
             numCols = nat \<lceil>sqrt (real (length sel))\<rceil>;
             cellW = Max (n_width ` set sel);
             cellH = Max (n_height ` set sel);
             startX = n_x (sel ! 0);
             startY = n_y (sel ! 0);
             s' = alignNodes A_grid now s
         in length (nodes s') = length (nodes s) \<and>
            (\<forall>p < length (nodes s).
               (n_id (nodes s ! p) \<notin> set (selectedNodeIds s) \<longrightarrow> nodes s' ! p = nodes s ! p) \<and>
               (\<forall>k < length sel. nodes s ! p = sel ! k \<longrightarrow>
                  nodes s' ! p =
                    (sel ! k)\<lparr>n_x := startX + real (k mod numCols) * (cellW + 20)
                                        + (cellW - n_width (sel ! k)) / 2,
                              n_y := startY + real (k div numCols) * (cellH + 20)
                                        + (cellH - n_height (sel ! k)) / 2\<rparr>))"
proof -
  define sel where "sel = filter (\<lambda>node. n_id node \<in> set (selectedNodeIds s)) (nodes s)"
  define numCols where "numCols = nat \<lceil>sqrt (real (length sel))\<rceil>"
  define cellW where "cellW = Max (n_width ` set sel)"
  define cellH where "cellH = Max (n_height ` set sel)"
  define place :: "CanvasNode \<Rightarrow> CanvasNode" where
    "place = (\<lambda>n. case findIndex (\<lambda>m. n_id m = n_id n) sel of
                     None \<Rightarrow> n
                   | Some k \<Rightarrow>
                       n\<lparr>n_x := n_x (sel ! 0) + real ((0 + k) mod numCols) * (cellW + GAP)
                                  + (cellW - n_width (sel ! k)) / 2,
                         n_y := n_y (sel ! 0) + real ((0 + k) div numCols) * (cellH + GAP)
                                  + (cellH - n_height (sel ! k)) / 2\<rparr>)"
  from assms(2) have len: "2 \<le> length sel" by (simp add: sel_def)
  then have ne: "sel \<noteq> []" by auto
  have dsel: "distinct (map n_id sel)"
    unfolding sel_def using assms(1) by (rule distinct_map_filter)
  have hd0: "hd sel = sel ! 0" using ne by (simp add: hd_conv_nth)
  have mw: "maxOf (map n_width sel) = cellW"
    using ne by (simp add: maxOf_Max cellW_def)
  have mh: "maxOf (map n_height sel) = cellH"
    using ne by (simp add: maxOf_Max cellH_def)
  have nc: "ceilSqrt (length sel) = numCols"
    by (simp add: ceilSqrt_eq numCols_def)
  have loop: "gridLoop sel 0 numCols cellW cellH (n_x (sel ! 0)) (n_y (sel ! 0)) (nodes s)
                = map place (nodes s)"
    unfolding place_def by (rule gridLoop_map[OF assms(1) dsel])
  have eq: "alignNodes A_grid now s = saveHistory now (s\<lparr>nodes := map place (nodes s)\<rparr>)"
    using len unfolding alignNodes_def Let_def sel_def[symmetric]
    by (simp add: mw mh nc hd0 loop)
  have unsel: "place n = n" if "n_id n \<notin> set (selectedNodeIds s)" for n
  proof -
    have "\<forall>m \<in> set sel. n_id m \<noteq> n_id n"
      using that unfolding sel_def by auto
    then have "findIndex (\<lambda>m. n_id m = n_id n) sel = None"
      by (simp add: findIndex_None)
    then show ?thesis by (simp add: place_def)
  qed
  have selk: "place (sel ! k) =
        (sel ! k)\<lparr>n_x := n_x (sel ! 0) + real (k mod numCols) * (cellW + 20)
                             + (cellW - n_width (sel ! k)) / 2,
                  n_y := n_y (sel ! 0) + real (k div numCols) * (cellH + 20)
                             + (cellH - n_height (sel ! k)) / 2\<rparr>"
    if "k < length sel" for k
    using findIndex_distinct[OF dsel that] by (simp add: place_def GAP_def)
  show ?thesis
    unfolding Let_def sel_def[symmetric] numCols_def[symmetric] cellW_def[symmetric]
      cellH_def[symmetric] eq
    using unsel selk by simp
qed

theorem grid_arrangement_witness:
  "distinct (map n_id (nodes fourNodeStore)) \<and>
   2 \<le> length (filter (\<lambda>node. n_id node \<in> set (selectedNodeIds fourNodeStore)) (nodes fourNodeStore)) \<and>
   nodes (alignNodes A_grid 3 fourNodeStore) =
     [imageNode ''a'' 40 60 100 100, imageNode ''b'' 160 60 100 100,
      imageNode ''c'' 40 180 100 100, imageNode ''d'' 160 180 100 100]"
  using grid_arrangement [of fourNodeStore 3]
  by (simp add: alignNodes_def store_defs fourNodeStore_def imageNode_def ceilSqrt_4 maxOf_def
        assignAt_def GAP_def)

section \<open>Properties of the selection controller\<close>

lemmas view_defs = onSelectionCreated_def onSelectionUpdated_def handleSelection_def
  fireSelectionCreated_def fireSelectionUpdated_def eventIds_def List.map_filter_def

text \<open>
  C4 as stated fails in drag-and-drop mode: a rectangle over the two nodes P and Q leaves
  both ids selected, after \<^verbatim>\<open>selection:created\<close> (the drag-and-drop effect's own
  handler runs after the one that cleared) and after \<^verbatim>\<open>selection:updated\<close> (whose
  handler has no drag-and-drop branch at all).
\<close>

theorem mode_cardinality_counterexample:
  "canvasMode dragdropStore = M_dragdrop \<and>
   eventIds [selectedObject ''P'', selectedObject ''Q''] = [''P'', ''Q''] \<and>
   selectedNodeIds (fireSelectionCreated M_dragdrop rectangleEvent dragdropStore) = [''P'', ''Q''] \<and>
   selectedNodeIds (fireSelectionUpdated M_dragdrop rectangleEvent dragdropStore) = [''P'', ''Q''] \<and>
   selectedNodeIds (onSelectionUpdated M_dragdrop rectangleEvent dragdropStore) = [''P'', ''Q'']"
  by (simp add: view_defs store_defs rectangleEvent_def dragdropStore_def selectedObject_def)

text \<open>
  C4, amended (mode cardinality). For an event that carries more than one node id: the
  handlers of \<^verbatim>\<open>selection:created\<close> and \<^verbatim>\<open>selection:updated\<close> that see
  \<^verbatim>\<open>canvasMode\<close> \<^verbatim>\<open>chat\<close> leave zero selected ids, never one, and so does the
  whole event in chat mode; the \<^verbatim>\<open>selection:created\<close> handler does the same when it
  sees \<^verbatim>\<open>dragdrop\<close>, but in drag-and-drop mode the event as a whole leaves all ids
  of the event selected.
\<close>

theorem mode_cardinality:
  assumes "e_selected e = Some selected" and "1 < length (eventIds selected)"
  shows "selectedNodeIds (onSelectionCreated M_chat e s) = [] \<and>
         selectedNodeIds (onSelectionUpdated M_chat e s) = [] \<and>
         selectedNodeIds (onSelectionCreated M_dragdrop e s) = [] \<and>
         (canvasMode s = M_chat \<longrightarrow>
            selectedNodeIds (fireSelectionCreated M_chat e s) = [] \<and>
            selectedNodeIds (fireSelectionUpdated M_chat e s) = []) \<and>
         (canvasMode s = M_dragdrop \<longrightarrow>
            selectedNodeIds (fireSelectionCreated M_dragdrop e s) = eventIds selected \<and>
            selectedNodeIds (fireSelectionUpdated M_dragdrop e s) = eventIds selected)"
proof -
  from assms(2) have ids: "eventIds selected \<noteq> []" "length (eventIds selected) \<noteq> 1"
    by auto
  then have ne: "selected \<noteq> []" by (auto simp: eventIds_def List.map_filter_def)
  from assms ne ids show ?thesis
    by (simp add: onSelectionCreated_def onSelectionUpdated_def handleSelection_def
          fireSelectionCreated_def fireSelectionUpdated_def Let_def
          selectNodes_def clearSelection_def selectNode_def split: list.splits)
qed

theorem mode_cardinality_witness:
  "e_selected rectangleEvent = Some [selectedObject ''P'', selectedObject ''Q''] \<and>
   1 < length (eventIds [selectedObject ''P'', selectedObject ''Q'']) \<and>
   selectedNodeIds chatStore = [''P''] \<and>
   selectedNodeIds (onSelectionCreated M_chat rectangleEvent chatStore) = [] \<and>
   selectedNodeIds (onSelectionUpdated M_chat rectangleEvent chatStore) = [] \<and>
   canvasMode chatStore = M_chat \<and>
   selectedNodeIds (fireSelectionCreated M_chat rectangleEvent chatStore) = [] \<and>
   canvasMode dragdropStore = M_dragdrop \<and>
   selectedNodeIds (fireSelectionCreated M_dragdrop rectangleEvent dragdropStore) = [''P'', ''Q'']"
  using mode_cardinality [of rectangleEvent "[selectedObject ''P'', selectedObject ''Q'']"]
  by (simp add: view_defs store_defs rectangleEvent_def dragdropStore_def selectedObject_def
        chatStore_def)

text \<open>
  The handlers of the mount effect keep the mode they were registered with. Registered in
  select mode and fired after the store has moved to chat mode, they store the whole
  multi-selection.
\<close>

lemma handler_mode_is_mode_at_mount:
  "canvasMode chatStore = M_chat \<and>
   selectedNodeIds (fireSelectionCreated M_select rectangleEvent chatStore) = [''P'', ''Q'']"
  by (simp add: view_defs store_defs rectangleEvent_def selectedObject_def chatStore_def)

section \<open>Properties of the scene reconciler\<close>

lemmas scene_defs = reconcile_def removeStale_def syncNode_def syncExisting_def invalidUrl_def
  js_or_def completeLoad_def AList.update.simps

lemma syncExisting_stable:
  assumes "n_type node = T_image" "n_url node \<noteq> None" "n_opacity node \<noteq> 0"
    "n_width node \<noteq> 0" "n_height node \<noteq> 0"
  shows "syncExisting node (fst (syncExisting node obj)) = (fst (syncExisting node obj), [])"
proof (cases "snd (syncExisting node obj) = []")
  case True
  then have "fst (syncExisting node obj) = obj"
    by (auto simp: syncExisting_def Let_def split: if_splits option.splits)
  with True show ?thesis by (metis prod.collapse)
next
  case False
  define updated where "updated = obj
                  \<lparr>o_left := n_x node,
                   o_top := n_y node,
                   o_scaleX := n_width node / js_or (o_width obj) 1,
                   o_scaleY := n_height node / js_or (o_height obj) 1,
                   o_angle := n_rotation node,
                   o_opacity := n_opacity node,
                   o_selectable := (\<not> n_locked node),
                   o_src := (if n_url node \<noteq> Some (case o_src obj of None \<Rightarrow> [] | Some v \<Rightarrow> v)
                                \<and> n_type node = T_image then n_url node
                             else o_src obj)\<rparr>"
  from False have f: "fst (syncExisting node obj) = updated"
    by (auto simp: syncExisting_def Let_def updated_def split: if_splits option.splits)
  from assms obtain u where u: "n_url node = Some u" by auto
  have w: "js_or (o_width updated) 1 * js_or (o_scaleX updated) 1 = n_width node"
    using assms(4) by (simp add: updated_def js_or_def)
  have h: "js_or (o_height updated) 1 * js_or (o_scaleY updated) 1 = n_height node"
    using assms(5) by (simp add: updated_def js_or_def)
  have l: "js_or (o_left updated) 0 = n_x node" "js_or (o_top updated) 0 = n_y node"
    "js_or (o_angle updated) 0 = n_rotation node"
    by (simp_all add: updated_def js_or_def)
  have op: "js_or (o_opacity updated) 1 = n_opacity node"
    using assms(3) by (simp add: updated_def js_or_def)
  have src: "n_url node = Some (case o_src updated of None \<Rightarrow> [] | Some v \<Rightarrow> v)"
    using assms(1) u by (auto simp: updated_def split: option.splits)
  show ?thesis
    unfolding f by (simp add: syncExisting_def[of node updated] Let_def w h l op src[symmetric])
qed

lemma syncNode_lookup:
  "map_of (fst (syncNode node om)) k =
     (if k = n_id node then map_option (\<lambda>obj. fst (syncExisting node obj)) (map_of om k)
      else map_of om k)"
  by (auto simp: syncNode_def update_conv' split: option.splits prod.splits)

lemma syncNodes_lookup:
  assumes "distinct (map n_id ns)"
  shows "map_of (fst (syncNodes ns om)) k =
     (case find (\<lambda>n. n_id n = k) ns of
        None \<Rightarrow> map_of om k
      | Some node \<Rightarrow> map_option (\<lambda>obj. fst (syncExisting node obj)) (map_of om k))"
  using assms
proof (induction ns arbitrary: om)
  case Nil
  then show ?case by simp
next
  case (Cons node rest)
  from Cons.prems have d: "distinct (map n_id rest)" and nin: "\<forall>m \<in> set rest. n_id m \<noteq> n_id node"
    by (auto simp: image_iff)
  have fst_eq: "fst (syncNodes (node # rest) om) = fst (syncNodes rest (fst (syncNode node om)))"
    by (simp add: split_beta)
  show ?case
  proof (cases "k = n_id node")
    case True
    with nin have "find (\<lambda>n. n_id n = k) rest = None" by (auto simp: find_None_iff)
    with True show ?thesis
      unfolding fst_eq Cons.IH[OF d] by (simp add: syncNode_lookup)
  next
    case False
    then have e: "map_of (fst (syncNode node om)) k = map_of om k"
      by (simp add: syncNode_lookup)
    from False have f: "find (\<lambda>n. n_id n = k) (node # rest) = find (\<lambda>n. n_id n = k) rest"
      by auto
    show ?thesis
      unfolding fst_eq Cons.IH[OF d] e f ..
  qed
qed

lemma syncNode_keys: "fst ` set (fst (syncNode node om)) = fst ` set om"
proof (cases "map_of om (n_id node)")
  case None
  then show ?thesis by (simp add: syncNode_def split: option.splits)
next
  case (Some obj)
  then have "n_id node \<in> fst ` set om" by (force dest: map_of_SomeD simp: image_iff)
  with Some show ?thesis
    by (auto simp: syncNode_def dom_update split: prod.splits)
qed

lemma syncNodes_keys: "fst ` set (fst (syncNodes ns om)) = fst ` set om"
  by (induction ns arbitrary: om) (simp_all add: split_beta syncNode_keys)

lemma syncNodes_quiet:
  assumes "\<forall>node \<in> set ns. syncNode node om = (om, [])"
  shows "syncNodes ns om = (om, [])"
  using assms by (induction ns) simp_all

lemma map_of_removeStale:
  "map_of (fst (removeStale ns om)) k = (if k \<in> set (map n_id ns) then map_of om k else None)"
  by (induction om) (auto simp: removeStale_def Let_def)

lemma removeStale_quiet:
  assumes "fst ` set om \<subseteq> set (map n_id ns)"
  shows "removeStale ns om = (om, [])"
proof -
  from assms have "\<forall>x \<in> set om. (case x of (nodeId, fabricObj) \<Rightarrow> nodeId \<in> set (map n_id ns))"
    by auto
  then have k: "filter (\<lambda>(nodeId, fabricObj). nodeId \<in> set (map n_id ns)) om = om"
    by (simp add: filter_id_conv)
  from assms have "\<forall>x \<in> set om. \<not> (case x of (nodeId, fabricObj) \<Rightarrow> nodeId \<notin> set (map n_id ns))"
    by auto
  then have r: "filter (\<lambda>(nodeId, fabricObj). nodeId \<notin> set (map n_id ns)) om = []"
    by (simp add: filter_empty_conv)
  show ?thesis unfolding removeStale_def Let_def k r by simp
qed

text \<open>
  C9 as stated fails while a load is in flight: the first pass over a node without a
  drawable begins its load and leaves the object map as it was, so the second pass
  begins the same load again.
\<close>

theorem reconcile_in_flight_counterexample:
  "reconcile [pictureNode] [] = ([], [LoadStarted ''pic'' ''a.png'']) \<and>
   snd (reconcile [pictureNode] (fst (reconcile [pictureNode] [])))
     = [LoadStarted ''pic'' ''a.png'']"
  by (simp add: scene_defs pictureNode_def imageNode_def)

text \<open>
  C9, amended (reconciler idempotence). For every node collection and object map that
  are settled (see \<^const>\<open>settled\<close>: no load pending or failed, unique ids, materialized
  nodes with a url, non-zero opacity and positive size), a second pass right after a first one
  mutates no drawable and leaves the object map as the first pass left it: realized
  position, size, rotation, opacity and source are compared with the node's fields
  within 0.1, 0.1, 0.1 and 0.01, in exact arithmetic.
\<close>

theorem reconcile_idempotent:
  assumes "settled ns objectMap"
  shows "reconcile ns (fst (reconcile ns objectMap)) = (fst (reconcile ns objectMap), [])"
proof -
  define om0 where "om0 = fst (removeStale ns objectMap)"
  define om1 where "om1 = fst (syncNodes ns om0)"
  have r1: "fst (reconcile ns objectMap) = om1"
    by (simp add: reconcile_def om1_def om0_def split_beta)
  from assms have d: "distinct (map n_id ns)" by (simp add: settled_def)
  have keys0: "fst ` set om0 \<subseteq> set (map n_id ns)"
    by (auto simp: om0_def removeStale_def)
  then have keys1: "fst ` set om1 \<subseteq> set (map n_id ns)"
    by (simp add: om1_def syncNodes_keys)
  have quiet: "syncNode node om1 = (om1, [])" if mem: "node \<in> set ns" for node
  proof -
    from d mem have fnd: "find (\<lambda>n. n_id n = n_id node) ns = Some node"
      by (induction ns) (auto simp: image_iff)
    from mem have l0: "map_of om0 (n_id node) = map_of objectMap (n_id node)"
      by (simp add: om0_def map_of_removeStale)
    have l1: "map_of om1 (n_id node) =
                map_option (\<lambda>obj. fst (syncExisting node obj)) (map_of objectMap (n_id node))"
      unfolding om1_def syncNodes_lookup[OF d] fnd l0 by simp
    show ?thesis
    proof (cases "map_of objectMap (n_id node)")
      case None
      with assms mem have "\<not> loadable node" by (auto simp: settled_def)
      with None l1 show ?thesis
        by (auto simp: syncNode_def loadable_def invalidUrl_def split: option.splits)
    next
      case (Some obj)
      with assms mem have c: "n_type node = T_image" "n_url node \<noteq> None" "n_opacity node \<noteq> 0"
        "n_width node \<noteq> 0" "n_height node \<noteq> 0"
        by (auto simp: settled_def)
      from Some l1 have l: "map_of om1 (n_id node) = Some (fst (syncExisting node obj))" by simp
      show ?thesis
        unfolding syncNode_def l
        by (simp add: syncExisting_stable[OF c] update_triv[OF l])
    qed
  qed
  have "reconcile ns om1 = (om1, [])"
    by (simp add: reconcile_def removeStale_quiet[OF keys1] syncNodes_quiet quiet)
  then show ?thesis by (simp add: r1)
qed

theorem reconcile_idempotent_witness:
  "settled [pictureNode] (fst (completeLoad pictureNode loadedImage [])) \<and>
   snd (reconcile [pictureNode] (fst (completeLoad pictureNode loadedImage [])))
     = [ObjectSet ''pic'', SrcReloaded ''pic'' ''a.png''] \<and>
   snd (reconcile [pictureNode]
          (fst (reconcile [pictureNode] (fst (completeLoad pictureNode loadedImage []))))) = []"
  using reconcile_idempotent [of "[pictureNode]" "fst (completeLoad pictureNode loadedImage [])"]
  by (simp add: settled_def loadable_def scene_defs pictureNode_def loadedImage_def imageNode_def)

text \<open>
  Outside the settled states: a materialized node of opacity 0 is set again by every
  pass, since \<^verbatim>\<open>existingObj.opacity || 1\<close> reads the drawable's 0 as 1.
\<close>

lemma transparent_node_is_set_on_every_pass:
  "snd (reconcile [pictureNode\<lparr>n_opacity := 0\<rparr>]
          (fst (reconcile [pictureNode\<lparr>n_opacity := 0\<rparr>]
                  (fst (completeLoad (pictureNode\<lparr>n_opacity := 0\<rparr>) loadedImage [])))))
     = [ObjectSet ''pic'']"
  by (simp add: scene_defs pictureNode_def loadedImage_def imageNode_def)

end
